theory Spec2Isabelle
  imports Complex_Main
begin

section \<open>Values, errors and the outside world\<close>

text \<open>
  The transcription pipeline (\<^verbatim>\<open>src/lib/whisper.ts\<close>) and the request handler
  (\<^verbatim>\<open>src/app/api/transcribe/route.ts\<close>) are asynchronous TypeScript. Each \<^verbatim>\<open>await\<close> is
  modelled as a sequential step on an explicit world; a rejected promise or a \<^verbatim>\<open>throw\<close>
  is the left summand of the result. What an external collaborator answers (the network,
  the transcoding process, the speech service, the record store, the clock) is read from an
  environment of oracles, so a theorem that quantifies over the environment speaks about
  every behaviour of the collaborators.
\<close>

text \<open>A thrown JavaScript value: an \<^verbatim>\<open>Error\<close> instance with its message, or any other value.\<close>

datatype thrown = JsError string | JsOther string

type_synonym 'a result = "thrown + 'a"

text \<open>JSON values, for the request body and for the response body. Numbers are reals:
  every finite double is one, and the code only tests them for zero and rounds them.\<close>

datatype json =
    JNull
  | JBool bool
  | JNum real
  | JStr string
  | JArr "json list"
  | JObj "(string \<times> json) list"

text \<open>The SQL enum \<^verbatim>\<open>TranscriptionStatus\<close> of the migration.\<close>

datatype TranscriptionStatus = NONE | PROCESSING | COMPLETED | FAILED

text \<open>The columns of a \<^verbatim>\<open>Video\<close> row that the handler reads or writes.\<close>

record Video =
  video_id :: string
  fileKey :: string
  transcription :: "string option"
  transcriptionStatus :: TranscriptionStatus
  duration :: "real option"

text \<open>The \<^verbatim>\<open>data\<close> argument of \<^verbatim>\<open>prisma.video.update\<close>: a field that is absent is \<open>None\<close>;
  \<open>set_duration\<close> may set the column to null (\<open>Some None\<close>).\<close>

record update_data =
  set_transcription :: "string option"
  set_transcriptionStatus :: "TranscriptionStatus option"
  set_duration :: "real option option"

text \<open>A call of the record store; the id is the JavaScript value that the handler passes
  (\<open>None\<close> is \<^verbatim>\<open>undefined\<close>).\<close>

datatype db_op = FindUnique "json option" | Update "json option" update_data

text \<open>The interface \<^verbatim>\<open>TranscriptionResult\<close> of whisper.ts.\<close>

record TranscriptionResult =
  result_text :: string
  result_duration :: "real option"

text \<open>What \<^verbatim>\<open>fetch\<close> resolves to: the fields of the response that the code reads.\<close>

record Response =
  ok :: bool
  statusText :: string
  arrayBuffer :: "string result"

text \<open>The calls that leave the process, in the order they are made. A write that the
  record store has carried out is logged as well, with the id, the row before and the row
  after.\<close>

datatype event =
    Db db_op
  | DbCommit string Video Video
  | HttpFetch string
  | FsWriteFile string
  | Exec string
  | FsReadFile string
  | TranscriptionsCreate string
  | FsUnlink string
  | ConsoleError string

text \<open>
  The environment: configuration and the behaviour of every collaborator.
  \<open>Date_now_at n\<close> is what the \<open>n\<close>-th reading of \<^verbatim>\<open>Date.now()\<close> returns (milliseconds);
  \<open>exec_run\<close> is the external process, which may leave the file system in any state;
  a fault oracle that answers \<open>Some e\<close> makes the call throw \<open>e\<close>.
\<close>

record env =
  OPENAI_API_KEY :: "string option"
  S3_ENDPOINT :: "string option"
  S3_BUCKET :: "string option"
  os_tmpdir :: string
  Date_now_at :: "nat \<Rightarrow> nat"
  fetch_url :: "string \<Rightarrow> Response result"
  writeFile_fault :: "string \<Rightarrow> thrown option"
  exec_run :: "string \<Rightarrow> (string \<rightharpoonup> string) \<Rightarrow> thrown option \<times> (string \<rightharpoonup> string)"
  readFile_fault :: "string \<Rightarrow> thrown option"
  unlink_fault :: "string \<Rightarrow> thrown option"
  transcriptions_create :: "string \<Rightarrow> string \<Rightarrow> TranscriptionResult result"
  db_fault :: "db_op \<Rightarrow> thrown option"

text \<open>The mutable world: the record store, the local files, the log of calls, and how
  often the clock has been read.\<close>

record world =
  rows :: "string \<rightharpoonup> Video"
  files :: "string \<rightharpoonup> string"
  trace :: "event list"
  clock_reads :: nat

definition log_event :: "event \<Rightarrow> world \<Rightarrow> world" where
  "log_event ev w = w\<lparr>trace := trace w @ [ev]\<rparr>"

section \<open>JavaScript primitives used by the code\<close>

text \<open>Truthiness of \<^verbatim>\<open>string | null | undefined\<close>: null, undefined and the empty string are falsy.\<close>

definition truthy_string :: "string option \<Rightarrow> bool" where
  "truthy_string s = (case s of None \<Rightarrow> False | Some t \<Rightarrow> t \<noteq> [])"

text \<open>Truthiness of a destructured JSON property (\<open>None\<close> is \<^verbatim>\<open>undefined\<close>).\<close>

fun truthy_json :: "json option \<Rightarrow> bool" where
  "truthy_json None = False"
| "truthy_json (Some JNull) = False"
| "truthy_json (Some (JBool b)) = b"
| "truthy_json (Some (JNum x)) = (x \<noteq> 0)"
| "truthy_json (Some (JStr s)) = (s \<noteq> [])"
| "truthy_json (Some (JArr xs)) = True"
| "truthy_json (Some (JObj kvs)) = True"

text \<open>\<^verbatim>\<open>Math.round\<close>: the nearest integer, a tie going towards plus infinity.\<close>

definition Math_round :: "real \<Rightarrow> int" where
  "Math_round x = \<lfloor>x + 1 / 2\<rfloor>"

text \<open>The decimal digits of a natural number, as a template literal renders \<^verbatim>\<open>Date.now()\<close>.\<close>

fun Number_toString :: "nat \<Rightarrow> string" where
  "Number_toString n =
     (if n < 10 then [char_of (48 + n)]
      else Number_toString (n div 10) @ [char_of (48 + n mod 10)])"

declare Number_toString.simps [simp del]

text \<open>
  \<^verbatim>\<open>path.join\<close> of two arguments, as the POSIX flavour of Node computes it: the non-empty
  arguments are joined by a separator and the result is normalised. Normalising drops
  empty segments and \<^verbatim>\<open>.\<close> segments, lets a \<^verbatim>\<open>..\<close> segment remove the segment before it
  (above the start of a relative path it is kept, above the root it is dropped), and
  keeps a leading and a trailing separator.
\<close>

fun split_slash :: "string \<Rightarrow> string list" where
  "split_slash [] = [[]]"
| "split_slash (c # cs) =
     (if c = CHR ''/'' then [] # split_slash cs
      else (case split_slash cs of [] \<Rightarrow> [[c]] | s # ss \<Rightarrow> (c # s) # ss))"

fun join_slash :: "string list \<Rightarrow> string" where
  "join_slash [] = []"
| "join_slash [s] = s"
| "join_slash (s # t # ss) = s @ ''/'' @ join_slash (t # ss)"

fun normalize_segments :: "bool \<Rightarrow> string list \<Rightarrow> string list \<Rightarrow> string list" where
  "normalize_segments allowAboveRoot acc [] = rev acc"
| "normalize_segments allowAboveRoot acc (s # ss) =
     (if s = [] \<or> s = ''.'' then normalize_segments allowAboveRoot acc ss
      else if s = ''..'' then
        (case acc of
           [] \<Rightarrow> normalize_segments allowAboveRoot (if allowAboveRoot then [s] else []) ss
         | a # rest \<Rightarrow>
             if a = ''..''
             then normalize_segments allowAboveRoot (if allowAboveRoot then s # acc else acc) ss
             else normalize_segments allowAboveRoot rest ss)
      else normalize_segments allowAboveRoot (s # acc) ss)"

definition path_normalize :: "string \<Rightarrow> string" where
  "path_normalize p =
     (case p of
        [] \<Rightarrow> ''.''
      | c # cs \<Rightarrow>
          (let isAbsolute = (c = CHR ''/'');
               trailingSeparator = (last p = CHR ''/'');
               kept = join_slash (normalize_segments (\<not> isAbsolute) [] (split_slash p))
           in if kept = []
              then (if isAbsolute then ''/'' else if trailingSeparator then ''./'' else ''.'')
              else (if isAbsolute then ''/'' else []) @ kept @
                   (if trailingSeparator then ''/'' else [])))"

definition path_join :: "string \<Rightarrow> string \<Rightarrow> string" where
  "path_join a b =
     (case filter (\<lambda>s. s \<noteq> []) [a, b] of
        [] \<Rightarrow> ''.''
      | s # ss \<Rightarrow> path_normalize (join_slash (s # ss)))"

text \<open>\<^verbatim>\<open>path.basename\<close>: the last segment, trailing separators ignored.\<close>

definition path_basename :: "string \<Rightarrow> string" where
  "path_basename p =
     rev (takeWhile (\<lambda>c. c \<noteq> CHR ''/'') (dropWhile (\<lambda>c. c = CHR ''/'') (rev p)))"

definition Date_now :: "env \<Rightarrow> world \<Rightarrow> nat \<times> world" where
  "Date_now e w = (Date_now_at e (clock_reads w), w\<lparr>clock_reads := Suc (clock_reads w)\<rparr>)"

text \<open>\<^verbatim>\<open>fs.writeFile\<close>, \<^verbatim>\<open>fs.readFile\<close> and \<^verbatim>\<open>fs.unlink\<close>. Reading or unlinking a path that
  does not exist throws.\<close>

definition fs_writeFile :: "env \<Rightarrow> string \<Rightarrow> string \<Rightarrow> world \<Rightarrow> unit result \<times> world" where
  "fs_writeFile e p bytes w =
     (let w1 = log_event (FsWriteFile p) w
      in case writeFile_fault e p of
           Some err \<Rightarrow> (Inl err, w1)
         | None \<Rightarrow> (Inr (), w1\<lparr>files := (files w1)(p \<mapsto> bytes)\<rparr>))"

definition fs_readFile :: "env \<Rightarrow> string \<Rightarrow> world \<Rightarrow> string result \<times> world" where
  "fs_readFile e p w =
     (let w1 = log_event (FsReadFile p) w
      in case readFile_fault e p of
           Some err \<Rightarrow> (Inl err, w1)
         | None \<Rightarrow>
             (case files w1 p of
                None \<Rightarrow> (Inl (JsError ''ENOENT: no such file or directory''), w1)
              | Some bytes \<Rightarrow> (Inr bytes, w1)))"

definition fs_unlink :: "env \<Rightarrow> string \<Rightarrow> world \<Rightarrow> unit result \<times> world" where
  "fs_unlink e p w =
     (let w1 = log_event (FsUnlink p) w
      in case unlink_fault e p of
           Some err \<Rightarrow> (Inl err, w1)
         | None \<Rightarrow>
             (case files w1 p of
                None \<Rightarrow> (Inl (JsError ''ENOENT: no such file or directory''), w1)
              | Some bytes \<Rightarrow> (Inr (), w1\<lparr>files := (files w1)(p := None)\<rparr>)))"

text \<open>\<^verbatim>\<open>execAsync(command)\<close>: the promise rejects when the process cannot be started or
  exits with a non-zero code.\<close>

definition execAsync :: "env \<Rightarrow> string \<Rightarrow> world \<Rightarrow> unit result \<times> world" where
  "execAsync e command w =
     (let w1 = log_event (Exec command) w;
          (failure, fs) = exec_run e command (files w1);
          w2 = w1\<lparr>files := fs\<rparr>
      in case failure of
           Some err \<Rightarrow> (Inl err, w2)
         | None \<Rightarrow> (Inr (), w2))"

section \<open>The pipeline of whisper.ts\<close>

text \<open>The two temp paths, as the template literals build them from a clock reading.\<close>

definition video_temp_path :: "string \<Rightarrow> nat \<Rightarrow> string" where
  "video_temp_path tempDir now = path_join tempDir (''video_'' @ Number_toString now @ ''.mp4'')"

definition audio_temp_path :: "string \<Rightarrow> nat \<Rightarrow> string" where
  "audio_temp_path tempDir now = path_join tempDir (''audio_'' @ Number_toString now @ ''.mp3'')"

definition ffmpeg_command :: "string \<Rightarrow> string \<Rightarrow> string" where
  "ffmpeg_command videoPath audioPath =
     ''ffmpeg -i '' @ [CHR 0x22] @ videoPath @ [CHR 0x22] @
     '' -vn -ac 1 -ar 16000 -b:a 32k -y '' @ [CHR 0x22] @ audioPath @ [CHR 0x22]"

definition extractAndCompressAudio :: "env \<Rightarrow> string \<Rightarrow> world \<Rightarrow> string result \<times> world" where
  "extractAndCompressAudio e videoPath w =
     (let tempDir = os_tmpdir e;
          (now, w1) = Date_now e w;
          audioPath = audio_temp_path tempDir now;
          command = ffmpeg_command videoPath audioPath
      in case execAsync e command w1 of
           (Inr u, w2) \<Rightarrow> (Inr audioPath, w2)
         | (Inl err, w2) \<Rightarrow>
             (Inl (JsError ''Failed to extract audio from video''),
              log_event (ConsoleError ''Audio extraction failed:'') w2))"

definition transcribeAudio_try :: "env \<Rightarrow> string \<Rightarrow> world \<Rightarrow> TranscriptionResult result \<times> world" where
  "transcribeAudio_try e audioPath w =
     (case fs_readFile e audioPath w of
        (Inl err, w1) \<Rightarrow> (Inl err, w1)
      | (Inr audioFile, w1) \<Rightarrow>
          (let name = path_basename audioPath;
               w2 = log_event (TranscriptionsCreate name) w1
           in case transcriptions_create e name audioFile of
                Inl err \<Rightarrow> (Inl err, w2)
              | Inr verbose_json \<Rightarrow>
                  (Inr \<lparr>result_text = result_text verbose_json,
                        result_duration = result_duration verbose_json\<rparr>, w2)))"

definition transcribeAudio :: "env \<Rightarrow> string \<Rightarrow> world \<Rightarrow> TranscriptionResult result \<times> world" where
  "transcribeAudio e audioPath w =
     (case transcribeAudio_try e audioPath w of
        (Inr r, w1) \<Rightarrow> (Inr r, w1)
      | (Inl err, w1) \<Rightarrow>
          (Inl (JsError ''Failed to transcribe audio''),
           log_event (ConsoleError ''Transcription failed:'') w1))"

definition downloadToTemp :: "env \<Rightarrow> string \<Rightarrow> world \<Rightarrow> string result \<times> world" where
  "downloadToTemp e url w =
     (let tempDir = os_tmpdir e;
          (now, w1) = Date_now e w;
          tempPath = video_temp_path tempDir now;
          w2 = log_event (HttpFetch url) w1
      in case fetch_url e url of
           Inl err \<Rightarrow> (Inl err, w2)
         | Inr response \<Rightarrow>
             if \<not> ok response
             then (Inl (JsError (''Failed to download: '' @ statusText response)), w2)
             else (case arrayBuffer response of
                     Inl err \<Rightarrow> (Inl err, w2)
                   | Inr buffer \<Rightarrow>
                       (case fs_writeFile e tempPath buffer w2 of
                          (Inl err, w3) \<Rightarrow> (Inl err, w3)
                        | (Inr u, w3) \<Rightarrow> (Inr tempPath, w3))))"

text \<open>\<^verbatim>\<open>cleanupTempFiles\<close>: the loop over the paths; the \<^verbatim>\<open>catch\<close> around each
  \<^verbatim>\<open>unlink\<close> drops its error.\<close>

fun cleanupTempFiles :: "env \<Rightarrow> string list \<Rightarrow> world \<Rightarrow> unit result \<times> world" where
  "cleanupTempFiles e [] w = (Inr (), w)"
| "cleanupTempFiles e (filePath # paths) w =
     (case fs_unlink e filePath w of
        (Inr u, w1) \<Rightarrow> cleanupTempFiles e paths w1
      | (Inl err, w1) \<Rightarrow> cleanupTempFiles e paths w1)"

text \<open>\<^verbatim>\<open>[videoPath, audioPath].filter(Boolean)\<close>.\<close>

fun filter_Boolean :: "string option list \<Rightarrow> string list" where
  "filter_Boolean [] = []"
| "filter_Boolean (None # ps) = filter_Boolean ps"
| "filter_Boolean (Some p # ps) =
     (if truthy_string (Some p) then p # filter_Boolean ps else filter_Boolean ps)"

text \<open>The \<^verbatim>\<open>finally\<close> block of \<^verbatim>\<open>transcribeVideo\<close>: it runs after the \<^verbatim>\<open>try\<close> block
  whatever its outcome; were the block itself to throw, its error would replace the
  outcome.\<close>

definition transcribeVideo_finally ::
  "env \<Rightarrow> string option \<Rightarrow> string option \<Rightarrow> 'a result \<Rightarrow> world \<Rightarrow> 'a result \<times> world" where
  "transcribeVideo_finally e videoPath audioPath outcome w =
     (if truthy_string videoPath \<or> truthy_string audioPath
      then (case cleanupTempFiles e (filter_Boolean [videoPath, audioPath]) w of
              (Inl err, w1) \<Rightarrow> (Inl err, w1)
            | (Inr u, w1) \<Rightarrow> (outcome, w1))
      else (outcome, w))"

text \<open>The \<^verbatim>\<open>try\<close> block of \<^verbatim>\<open>transcribeVideo\<close>: its outcome, and the values that the
  variables \<^verbatim>\<open>videoPath\<close> and \<^verbatim>\<open>audioPath\<close> hold when control leaves it. A variable is
  assigned only when its stage has returned.\<close>

definition transcribeVideo_try ::
  "env \<Rightarrow> string \<Rightarrow> world \<Rightarrow>
   TranscriptionResult result \<times> string option \<times> string option \<times> world" where
  "transcribeVideo_try e videoUrl w =
     (case downloadToTemp e videoUrl w of
        (Inl err, w1) \<Rightarrow> (Inl err, None, None, w1)
      | (Inr videoPath, w1) \<Rightarrow>
          (case extractAndCompressAudio e videoPath w1 of
             (Inl err, w2) \<Rightarrow> (Inl err, Some videoPath, None, w2)
           | (Inr audioPath, w2) \<Rightarrow>
               (case transcribeAudio e audioPath w2 of
                  (result, w3) \<Rightarrow> (result, Some videoPath, Some audioPath, w3))))"

definition transcribeVideo :: "env \<Rightarrow> string \<Rightarrow> world \<Rightarrow> TranscriptionResult result \<times> world" where
  "transcribeVideo e videoUrl w =
     (case transcribeVideo_try e videoUrl w of
        (outcome, videoPath, audioPath, w1) \<Rightarrow>
          transcribeVideo_finally e videoPath audioPath outcome w1)"

section \<open>The handler of route.ts\<close>

record NextResponse =
  status :: nat
  body :: json

definition NextResponse_json :: "json \<Rightarrow> nat \<Rightarrow> NextResponse" where
  "NextResponse_json data code = \<lparr>status = code, body = data\<rparr>"

definition error_body :: "string \<Rightarrow> json" where
  "error_body message = JObj [(''error'', JStr message)]"

definition json_of_text :: "string option \<Rightarrow> json" where
  "json_of_text t = (case t of None \<Rightarrow> JNull | Some s \<Rightarrow> JStr s)"

definition json_of_number :: "real option \<Rightarrow> json" where
  "json_of_number d = (case d of None \<Rightarrow> JNull | Some x \<Rightarrow> JNum x)"

text \<open>\<^verbatim>\<open>const { videoId } = await request.json()\<close> on the parsed body: destructuring null
  throws a TypeError; a primitive or an array has no such property; of a duplicated key
  the parser keeps the last.\<close>

fun destructure_videoId :: "json \<Rightarrow> json option result" where
  "destructure_videoId JNull = Inl (JsError ''Cannot destructure property videoId of null'')"
| "destructure_videoId (JObj kvs) = Inr (map_of (rev kvs) ''videoId'')"
| "destructure_videoId (JBool b) = Inr None"
| "destructure_videoId (JNum x) = Inr None"
| "destructure_videoId (JStr s) = Inr None"
| "destructure_videoId (JArr xs) = Inr None"

text \<open>\<^verbatim>\<open>process.env.X || fallback\<close>.\<close>

definition or_default :: "string option \<Rightarrow> string \<Rightarrow> string" where
  "or_default v fallback =
     (case v of None \<Rightarrow> fallback | Some s \<Rightarrow> if truthy_string (Some s) then s else fallback)"

text \<open>
  The record store, an external collaborator, at its interface: \<^verbatim>\<open>findUnique\<close> returns the
  row or null; \<^verbatim>\<open>update\<close> sets the given fields of the row and returns the updated row, and
  throws when there is no such row. Either throws what the fault oracle says, and rejects
  an id that is not a string. A call that throws changes no row.
\<close>

definition apply_update :: "update_data \<Rightarrow> Video \<Rightarrow> Video" where
  "apply_update d v =
     v\<lparr>transcription := (case set_transcription d of None \<Rightarrow> transcription v | Some t \<Rightarrow> Some t),
       transcriptionStatus :=
         (case set_transcriptionStatus d of None \<Rightarrow> transcriptionStatus v | Some s \<Rightarrow> s),
       duration := (case set_duration d of None \<Rightarrow> duration v | Some x \<Rightarrow> x)\<rparr>"

definition prisma_video_findUnique :: "env \<Rightarrow> json option \<Rightarrow> world \<Rightarrow> Video option result \<times> world" where
  "prisma_video_findUnique e videoId w =
     (let w1 = log_event (Db (FindUnique videoId)) w
      in case db_fault e (FindUnique videoId) of
           Some err \<Rightarrow> (Inl err, w1)
         | None \<Rightarrow>
             (case videoId of
                Some (JStr k) \<Rightarrow> (Inr (rows w1 k), w1)
              | _ \<Rightarrow> (Inl (JsError ''Invalid value provided for id''), w1)))"

definition prisma_video_update :: "env \<Rightarrow> json option \<Rightarrow> update_data \<Rightarrow> world \<Rightarrow> Video result \<times> world" where
  "prisma_video_update e videoId data w =
     (let w1 = log_event (Db (Update videoId data)) w
      in case db_fault e (Update videoId data) of
           Some err \<Rightarrow> (Inl err, w1)
         | None \<Rightarrow>
             (case videoId of
                Some (JStr k) \<Rightarrow>
                  (case rows w1 k of
                     None \<Rightarrow> (Inl (JsError ''Record to update not found''), w1)
                   | Some v \<Rightarrow>
                       (let v1 = apply_update data v;
                            w2 = log_event (DbCommit k v v1) w1
                        in (Inr v1, w2\<lparr>rows := (rows w2)(k \<mapsto> v1)\<rparr>)))
              | _ \<Rightarrow> (Inl (JsError ''Invalid value provided for id''), w1)))"

text \<open>The three \<^verbatim>\<open>data\<close> objects that the handler writes.\<close>

definition data_processing :: update_data where
  "data_processing =
     \<lparr>set_transcription = None, set_transcriptionStatus = Some PROCESSING, set_duration = None\<rparr>"

definition data_failed :: update_data where
  "data_failed =
     \<lparr>set_transcription = None, set_transcriptionStatus = Some FAILED, set_duration = None\<rparr>"

text \<open>\<^verbatim>\<open>result.duration ? Math.round(result.duration) : video.duration\<close>: an absent
  duration and the number zero are falsy.\<close>

definition new_duration :: "TranscriptionResult \<Rightarrow> Video \<Rightarrow> real option" where
  "new_duration result video =
     (case result_duration result of
        None \<Rightarrow> duration video
      | Some d \<Rightarrow> if d \<noteq> 0 then Some (of_int (Math_round d)) else duration video)"

definition data_completed :: "TranscriptionResult \<Rightarrow> Video \<Rightarrow> update_data" where
  "data_completed result video =
     \<lparr>set_transcription = Some (result_text result),
      set_transcriptionStatus = Some COMPLETED,
      set_duration = Some (new_duration result video)\<rparr>"

definition video_url :: "env \<Rightarrow> Video \<Rightarrow> string" where
  "video_url e video =
     (let s3Endpoint = or_default (S3_ENDPOINT e) ''http://minio:9002'';
          bucket = or_default (S3_BUCKET e) ''videos''
      in s3Endpoint @ ''/'' @ bucket @ ''/'' @ fileKey video)"

text \<open>The inner \<^verbatim>\<open>try\<close> block (lines 52 to 76) and its \<^verbatim>\<open>catch\<close> (lines 77 to 89).\<close>

definition POST_inner_try :: "env \<Rightarrow> json option \<Rightarrow> Video \<Rightarrow> world \<Rightarrow> NextResponse result \<times> world" where
  "POST_inner_try e videoId video w =
     (let videoUrl = video_url e video
      in case transcribeVideo e videoUrl w of
           (Inl err, w1) \<Rightarrow> (Inl err, w1)
         | (Inr result, w1) \<Rightarrow>
             (case prisma_video_update e videoId (data_completed result video) w1 of
                (Inl err, w2) \<Rightarrow> (Inl err, w2)
              | (Inr updatedVideo, w2) \<Rightarrow>
                  (Inr (NextResponse_json
                         (JObj [(''success'', JBool True),
                                (''transcription'', json_of_text (transcription updatedVideo)),
                                (''status'', JStr ''COMPLETED''),
                                (''duration'', json_of_number (duration updatedVideo))])
                         200), w2)))"

definition error_message :: "thrown \<Rightarrow> string" where
  "error_message error = (case error of JsError m \<Rightarrow> m | JsOther x \<Rightarrow> ''Transcription failed'')"

definition POST_inner_catch :: "env \<Rightarrow> json option \<Rightarrow> thrown \<Rightarrow> world \<Rightarrow> NextResponse result \<times> world" where
  "POST_inner_catch e videoId error w =
     (case prisma_video_update e videoId data_failed w of
        (Inl err, w1) \<Rightarrow> (Inl err, w1)
      | (Inr v, w1) \<Rightarrow>
          (Inr (NextResponse_json (error_body (error_message error)) 500),
           log_event (ConsoleError ''Transcription error:'') w1))"

text \<open>The outer \<^verbatim>\<open>try\<close> block (lines 6 to 89); \<open>request_json\<close> is what
  \<^verbatim>\<open>await request.json()\<close> gives: the parsed body, or the parser's error.\<close>

definition POST_try :: "env \<Rightarrow> json result \<Rightarrow> world \<Rightarrow> NextResponse result \<times> world" where
  "POST_try e request_json w =
     (case request_json of
        Inl err \<Rightarrow> (Inl err, w)
      | Inr parsed \<Rightarrow>
          (case destructure_videoId parsed of
             Inl err \<Rightarrow> (Inl err, w)
           | Inr videoId \<Rightarrow>
               if \<not> truthy_json videoId
               then (Inr (NextResponse_json (error_body ''Video ID is required'') 400), w)
               else if \<not> truthy_string (OPENAI_API_KEY e)
               then (Inr (NextResponse_json (error_body ''OpenAI API key not configured'') 500), w)
               else (case prisma_video_findUnique e videoId w of
                       (Inl err, w1) \<Rightarrow> (Inl err, w1)
                     | (Inr None, w1) \<Rightarrow>
                         (Inr (NextResponse_json (error_body ''Video not found'') 404), w1)
                     | (Inr (Some video), w1) \<Rightarrow>
                         if transcriptionStatus video = COMPLETED \<and> truthy_string (transcription video)
                         then (Inr (NextResponse_json
                                     (JObj [(''success'', JBool True),
                                            (''transcription'', json_of_text (transcription video)),
                                            (''status'', JStr ''COMPLETED''),
                                            (''cached'', JBool True)])
                                     200), w1)
                         else (case prisma_video_update e videoId data_processing w1 of
                                 (Inl err, w2) \<Rightarrow> (Inl err, w2)
                               | (Inr v, w2) \<Rightarrow>
                                   (case POST_inner_try e videoId video w2 of
                                      (Inr response, w3) \<Rightarrow> (Inr response, w3)
                                    | (Inl error, w3) \<Rightarrow>
                                        POST_inner_catch e videoId error w3)))))"

text \<open>The handler: the outer \<^verbatim>\<open>catch\<close> (lines 90 to 95) turns whatever the block throws
  into the generic 500 response.\<close>

definition POST :: "env \<Rightarrow> json result \<Rightarrow> world \<Rightarrow> NextResponse result \<times> world" where
  "POST e request_json w =
     (case POST_try e request_json w of
        (Inr response, w1) \<Rightarrow> (Inr response, w1)
      | (Inl error, w1) \<Rightarrow>
          (Inr (NextResponse_json (error_body ''Internal server error'') 500),
           log_event (ConsoleError ''API error:'') w1))"

section \<open>Reading the log\<close>

text \<open>The paths handed to \<^verbatim>\<open>fs.unlink\<close>, the calls of the record store and the writes that
  the store has carried out, each in the order of the log.\<close>

fun unlinked :: "event list \<Rightarrow> string list" where
  "unlinked [] = []"
| "unlinked (FsUnlink p # evs) = p # unlinked evs"
| "unlinked (ev # evs) = unlinked evs"

fun db_calls :: "event list \<Rightarrow> db_op list" where
  "db_calls [] = []"
| "db_calls (Db op # evs) = op # db_calls evs"
| "db_calls (ev # evs) = db_calls evs"

fun commits :: "event list \<Rightarrow> (string \<times> Video \<times> Video) list" where
  "commits [] = []"
| "commits (DbCommit k a b # evs) = (k, a, b) # commits evs"
| "commits (ev # evs) = commits evs"

text \<open>The calls that only the pipeline makes.\<close>

fun pipeline_calls :: "event list \<Rightarrow> event list" where
  "pipeline_calls [] = []"
| "pipeline_calls (Db op # evs) = pipeline_calls evs"
| "pipeline_calls (DbCommit k a b # evs) = pipeline_calls evs"
| "pipeline_calls (ConsoleError m # evs) = pipeline_calls evs"
| "pipeline_calls (ev # evs) = ev # pipeline_calls evs"

text \<open>The writes carried out between an earlier world and a later one, and the changes of
  status that they make.\<close>

definition writes_since :: "world \<Rightarrow> world \<Rightarrow> (string \<times> Video \<times> Video) list" where
  "writes_since w w1 = drop (length (commits (trace w))) (commits (trace w1))"

fun status_transitions ::
  "(string \<times> Video \<times> Video) list \<Rightarrow> (TranscriptionStatus \<times> TranscriptionStatus) list" where
  "status_transitions [] = []"
| "status_transitions ((k, a, b) # ws) =
     (transcriptionStatus a, transcriptionStatus b) # status_transitions ws"

text \<open>The non-null values among the two path variables of \<^verbatim>\<open>transcribeVideo\<close>.\<close>

definition held_paths :: "string option \<Rightarrow> string option \<Rightarrow> string list" where
  "held_paths videoPath audioPath =
     (case videoPath of None \<Rightarrow> [] | Some p \<Rightarrow> [p]) @ (case audioPath of None \<Rightarrow> [] | Some p \<Rightarrow> [p])"

text \<open>A row after each of the three writes of the handler.\<close>

definition marked :: "Video \<Rightarrow> Video" where
  "marked v = v\<lparr>transcriptionStatus := PROCESSING\<rparr>"

definition failed :: "Video \<Rightarrow> Video" where
  "failed v = v\<lparr>transcriptionStatus := FAILED\<rparr>"

definition completed :: "TranscriptionResult \<Rightarrow> Video \<Rightarrow> Video" where
  "completed r v =
     v\<lparr>transcription := Some (result_text r), transcriptionStatus := COMPLETED,
       duration := new_duration r v\<rparr>"

text \<open>The world once the handler has found the row and marked it as being processed.\<close>

definition after_marking :: "string \<Rightarrow> Video \<Rightarrow> world \<Rightarrow> world" where
  "after_marking k video w =
     w\<lparr>rows := (rows w)(k \<mapsto> marked video),
       trace := trace w @ [Db (FindUnique (Some (JStr k))),
                           Db (Update (Some (JStr k)) data_processing),
                           DbCommit k video (marked video)]\<rparr>"


section \<open>A concrete installation\<close>

text \<open>
  Scenario A of the specification: the video \<open>v1\<close> is stored and not yet transcribed, every
  collaborator answers, and the speech service returns \<open>hello world\<close> with a duration of 12.4
  seconds. The clock reads 7 each time; the transcoder writes its output to the audio path
  of that reading.
\<close>

definition demo_env :: env where
  "demo_env =
     \<lparr>OPENAI_API_KEY = Some ''sk-test'',
      S3_ENDPOINT = None,
      S3_BUCKET = None,
      os_tmpdir = ''/tmp'',
      Date_now_at = (\<lambda>n. 7),
      fetch_url = (\<lambda>url. Inr \<lparr>ok = True, statusText = ''OK'', arrayBuffer = Inr ''mp4''\<rparr>),
      writeFile_fault = (\<lambda>p. None),
      exec_run = (\<lambda>command fs. (None, fs(''/tmp/audio_7.mp3'' \<mapsto> ''mp3''))),
      readFile_fault = (\<lambda>p. None),
      unlink_fault = (\<lambda>p. None),
      transcriptions_create =
        (\<lambda>name bytes. Inr \<lparr>result_text = ''hello world'', result_duration = Some (62 / 5)\<rparr>),
      db_fault = (\<lambda>op. None)\<rparr>"

definition demo_video :: Video where
  "demo_video =
     \<lparr>video_id = ''v1'', fileKey = ''a.mp4'', transcription = None,
      transcriptionStatus = NONE, duration = Some 30\<rparr>"

definition demo_world :: world where
  "demo_world = \<lparr>rows = [''v1'' \<mapsto> demo_video], files = Map.empty, trace = [], clock_reads = 0\<rparr>"

definition demo_body :: json where
  "demo_body = JObj [(''videoId'', JStr ''v1'')]"

definition demo_url :: string where
  "demo_url = ''http://minio:9002/videos/a.mp4''"

text \<open>Variations: the download is refused; the transcoder fails and leaves a partial file;
  the record store rejects the write of FAILED; the service reports an empty text, or a
  duration of zero.\<close>

definition no_network_env :: env where
  "no_network_env = demo_env\<lparr>fetch_url := (\<lambda>url. Inl (JsError ''fetch failed''))\<rparr>"

definition broken_ffmpeg_env :: env where
  "broken_ffmpeg_env =
     demo_env\<lparr>exec_run :=
       (\<lambda>command fs. (Some (JsError ''Command failed''), fs(''/tmp/audio_7.mp3'' \<mapsto> ''partial'')))\<rparr>"

definition db_down_env :: env where
  "db_down_env =
     no_network_env\<lparr>db_fault :=
       (\<lambda>op. if op = Update (Some (JStr ''v1'')) data_failed
             then Some (JsError ''connection lost'') else None)\<rparr>"

definition silent_env :: env where
  "silent_env =
     demo_env\<lparr>transcriptions_create :=
       (\<lambda>name bytes. Inr \<lparr>result_text = [], result_duration = Some (62 / 5)\<rparr>)\<rparr>"

definition zero_duration_env :: env where
  "zero_duration_env =
     demo_env\<lparr>transcriptions_create :=
       (\<lambda>name bytes. Inr \<lparr>result_text = ''hello world'', result_duration = Some 0\<rparr>)\<rparr>"

text \<open>The speech service is down, and no temp file can be removed.\<close>

definition speech_down_env :: env where
  "speech_down_env =
     demo_env\<lparr>transcriptions_create := (\<lambda>name bytes. Inl (JsError ''service unavailable'')),
               unlink_fault := (\<lambda>p. Some (JsError ''EPERM''))\<rparr>"

text \<open>The row \<open>v1\<close> once transcribed, with a text and with the empty text.\<close>

definition done_world :: world where
  "done_world =
     demo_world\<lparr>rows := [''v1'' \<mapsto> demo_video\<lparr>transcription := Some ''x'',
                                                transcriptionStatus := COMPLETED\<rparr>]\<rparr>"

definition done_empty_world :: world where
  "done_empty_world =
     demo_world\<lparr>rows := [''v1'' \<mapsto> demo_video\<lparr>transcription := Some [],
                                                transcriptionStatus := COMPLETED\<rparr>]\<rparr>"

text \<open>The world that a first, successful request leaves when the service reports an empty
  text.\<close>

definition after_silent_run :: world where
  "after_silent_run = snd (POST silent_env (Inr demo_body) demo_world)"

section \<open>Frame lemmas for the pipeline\<close>

lemma unlinked_append [simp]: "unlinked (xs @ ys) = unlinked xs @ unlinked ys"
  by (induction xs rule: unlinked.induct) simp_all

lemma db_calls_append [simp]: "db_calls (xs @ ys) = db_calls xs @ db_calls ys"
  by (induction xs rule: db_calls.induct) simp_all

lemma pipeline_calls_append [simp]:
  "pipeline_calls (xs @ ys) = pipeline_calls xs @ pipeline_calls ys"
  by (induction xs rule: pipeline_calls.induct) simp_all

lemma commits_append [simp]: "commits (xs @ ys) = commits xs @ commits ys"
  by (induction xs rule: commits.induct) simp_all

lemma downloadToTemp_frame:
  "rows (snd (downloadToTemp e url w)) = rows w \<and>
   unlinked (trace (snd (downloadToTemp e url w))) = unlinked (trace w) \<and>
   db_calls (trace (snd (downloadToTemp e url w))) = db_calls (trace w) \<and>
   commits (trace (snd (downloadToTemp e url w))) = commits (trace w)"
  by (simp add: downloadToTemp_def Date_now_def fs_writeFile_def log_event_def Let_def
      split: sum.splits option.splits prod.splits)

lemma downloadToTemp_path:
  "downloadToTemp e url w = (Inr p, w1) \<Longrightarrow>
   p = video_temp_path (os_tmpdir e) (Date_now_at e (clock_reads w))"
  by (auto simp add: downloadToTemp_def Date_now_def fs_writeFile_def log_event_def Let_def
      split: sum.splits option.splits prod.splits if_splits)

lemma extractAndCompressAudio_frame:
  "rows (snd (extractAndCompressAudio e videoPath w)) = rows w \<and>
   unlinked (trace (snd (extractAndCompressAudio e videoPath w))) = unlinked (trace w) \<and>
   db_calls (trace (snd (extractAndCompressAudio e videoPath w))) = db_calls (trace w) \<and>
   commits (trace (snd (extractAndCompressAudio e videoPath w))) = commits (trace w)"
  by (simp add: extractAndCompressAudio_def Date_now_def execAsync_def log_event_def Let_def
      split: sum.splits option.splits prod.splits)

lemma extractAndCompressAudio_path:
  "extractAndCompressAudio e videoPath w = (Inr p, w1) \<Longrightarrow>
   p = audio_temp_path (os_tmpdir e) (Date_now_at e (clock_reads w))"
  by (auto simp add: extractAndCompressAudio_def Date_now_def execAsync_def log_event_def Let_def
      split: sum.splits option.splits prod.splits if_splits)

lemma transcribeAudio_frame:
  "rows (snd (transcribeAudio e audioPath w)) = rows w \<and>
   unlinked (trace (snd (transcribeAudio e audioPath w))) = unlinked (trace w) \<and>
   db_calls (trace (snd (transcribeAudio e audioPath w))) = db_calls (trace w) \<and>
   commits (trace (snd (transcribeAudio e audioPath w))) = commits (trace w)"
  by (simp add: transcribeAudio_def transcribeAudio_try_def fs_readFile_def log_event_def Let_def
      split: sum.splits option.splits prod.splits)

lemma fs_unlink_frame:
  "rows (snd (fs_unlink e p w)) = rows w \<and>
   unlinked (trace (snd (fs_unlink e p w))) = unlinked (trace w) @ [p] \<and>
   db_calls (trace (snd (fs_unlink e p w))) = db_calls (trace w) \<and>
   commits (trace (snd (fs_unlink e p w))) = commits (trace w)"
  by (simp add: fs_unlink_def log_event_def Let_def split: option.splits)

lemma cleanupTempFiles_frame:
  "fst (cleanupTempFiles e ps w) = Inr () \<and>
   rows (snd (cleanupTempFiles e ps w)) = rows w \<and>
   unlinked (trace (snd (cleanupTempFiles e ps w))) = unlinked (trace w) @ ps \<and>
   db_calls (trace (snd (cleanupTempFiles e ps w))) = db_calls (trace w) \<and>
   commits (trace (snd (cleanupTempFiles e ps w))) = commits (trace w)"
proof (induction ps arbitrary: w)
  case Nil
  show ?case by simp
next
  case (Cons p ps)
  obtain r w1 where step: "fs_unlink e p w = (r, w1)"
    by (cases "fs_unlink e p w")
  have same: "cleanupTempFiles e (p # ps) w = cleanupTempFiles e ps w1"
    using step by (cases r) simp_all
  have "rows w1 = rows w" "unlinked (trace w1) = unlinked (trace w) @ [p]"
    "db_calls (trace w1) = db_calls (trace w)" "commits (trace w1) = commits (trace w)"
    using fs_unlink_frame [of e p w] step by simp_all
  with Cons.IH [of w1] same show ?case by simp
qed

subsection \<open>The temp paths end in their file names\<close>

lemma split_slash_nonempty: "split_slash p \<noteq> []"
  by (induction p) (auto split: list.splits)

lemma split_slash_plain: "CHR ''/'' \<notin> set name \<Longrightarrow> split_slash name = [name]"
  by (induction name) (auto split: list.splits)

lemma split_slash_append:
  "split_slash (xs @ CHR ''/'' # ys) = split_slash xs @ split_slash ys"
  using split_slash_nonempty by (induction xs) (auto split: list.splits)

lemma normalize_segments_append:
  "\<exists>acc1. normalize_segments up acc ss = rev acc1 \<and>
     normalize_segments up acc (ss @ tt) = normalize_segments up acc1 tt"
  by (induction up acc ss rule: normalize_segments.induct) (auto split: list.splits)

lemma join_slash_snoc: "\<exists>pre. join_slash (xs @ [name]) = pre @ name"
  by (induction xs rule: join_slash.induct) auto

lemma digit_not_slash: "k < 10 \<Longrightarrow> char_of (48 + k :: nat) \<noteq> CHR ''/''"
proof
  assume k: "k < 10" and "char_of (48 + k) = CHR ''/''"
  then have "of_char (char_of (48 + k)) = (of_char (CHR ''/'') :: nat)" by simp
  with k show False by simp
qed

lemma Number_toString_no_slash: "CHR ''/'' \<notin> set (Number_toString n)"
proof (induction n rule: Number_toString.induct)
  case (1 n)
  show ?case
  proof (cases "n < 10")
    case True
    then show ?thesis
      using digit_not_slash [of n] by (simp add: Number_toString.simps [of n])
  next
    case False
    with 1 digit_not_slash [of "n mod 10"] show ?thesis
      by (simp add: Number_toString.simps [of n])
  qed
qed


lemma path_join_plain:
  assumes "name \<noteq> []" and "CHR ''/'' \<notin> set name" and "name \<noteq> ''.''" and "name \<noteq> ''..''"
  shows "\<exists>pre. path_join dir name = pre @ name"
proof -
  define joined where "joined = (if dir = [] then name else dir @ ''/'' @ name)"
  have pj: "path_join dir name = path_normalize joined"
    using assms(1) by (simp add: path_join_def joined_def)
  have segs: "\<exists>ss. split_slash joined = ss @ [name]"
    using assms(2) split_slash_append [of dir name]
    by (auto simp add: joined_def split_slash_plain)
  have last_joined: "last joined = last name" and ne: "joined \<noteq> []"
    using assms(1) by (simp_all add: joined_def)
  have not_sep: "last joined \<noteq> CHR ''/''"
    using assms(1,2) last_joined by (metis last_in_set)
  from segs obtain ss where ss: "split_slash joined = ss @ [name]" by blast
  have kept: "\<exists>pre. join_slash (normalize_segments up [] (split_slash joined)) = pre @ name" for up
  proof -
    from normalize_segments_append [of up "[]" ss "[name]"] obtain acc1
      where "normalize_segments up [] (ss @ [name]) = normalize_segments up acc1 [name]"
      by blast
    with assms have "normalize_segments up [] (ss @ [name]) = rev acc1 @ [name]"
      by simp
    with ss join_slash_snoc [of "rev acc1" name] show ?thesis by simp
  qed
  obtain c cs where c: "joined = c # cs"
    using ne by (cases joined) simp_all
  from kept [of "c \<noteq> CHR ''/''"] obtain pre
    where pre: "join_slash (normalize_segments (c \<noteq> CHR ''/'') [] (split_slash joined)) = pre @ name"
    by blast
  have "path_normalize joined = (if c = CHR ''/'' then ''/'' else []) @ pre @ name"
    using c pre not_sep assms(1) by (simp add: path_normalize_def Let_def)
  with pj show ?thesis by (metis append_assoc)
qed

lemma temp_name_plain:
  "''video_'' @ Number_toString n @ ''.mp4'' \<noteq> []"
  "CHR ''/'' \<notin> set (''video_'' @ Number_toString n @ ''.mp4'')"
  "''video_'' @ Number_toString n @ ''.mp4'' \<noteq> ''.''"
  "''video_'' @ Number_toString n @ ''.mp4'' \<noteq> ''..''"
  "''audio_'' @ Number_toString n @ ''.mp3'' \<noteq> []"
  "CHR ''/'' \<notin> set (''audio_'' @ Number_toString n @ ''.mp3'')"
  "''audio_'' @ Number_toString n @ ''.mp3'' \<noteq> ''.''"
  "''audio_'' @ Number_toString n @ ''.mp3'' \<noteq> ''..''"
  using Number_toString_no_slash [of n] by simp_all

lemma temp_paths_last:
  "last (video_temp_path d m) = CHR ''4''" "last (audio_temp_path d n) = CHR ''3''"
  "video_temp_path d m \<noteq> []" "audio_temp_path d n \<noteq> []"
proof -
  from path_join_plain [OF temp_name_plain(1-4) [of m], of d] obtain pre
    where "video_temp_path d m = pre @ ''video_'' @ Number_toString m @ ''.mp4''"
    by (auto simp add: video_temp_path_def)
  then show "last (video_temp_path d m) = CHR ''4''" "video_temp_path d m \<noteq> []"
    by simp_all
  from path_join_plain [OF temp_name_plain(5-8) [of n], of d] obtain pre
    where "audio_temp_path d n = pre @ ''audio_'' @ Number_toString n @ ''.mp3''"
    by (auto simp add: audio_temp_path_def)
  then show "last (audio_temp_path d n) = CHR ''3''" "audio_temp_path d n \<noteq> []"
    by simp_all
qed

lemma temp_paths_differ: "video_temp_path d m \<noteq> audio_temp_path d' n"
proof
  assume "video_temp_path d m = audio_temp_path d' n"
  then have "last (video_temp_path d m) = last (audio_temp_path d' n)" by simp
  then show False by (simp add: temp_paths_last)
qed

lemma temp_paths_nonempty: "video_temp_path d m \<noteq> []" "audio_temp_path d n \<noteq> []"
  by (rule temp_paths_last)+

subsection \<open>What the stages leave unchanged\<close>


lemma transcribeVideo_try_facts:
  assumes "transcribeVideo_try e url w = (outcome, vp, ap, w1)"
  shows "rows w1 = rows w \<and> unlinked (trace w1) = unlinked (trace w) \<and>
      db_calls (trace w1) = db_calls (trace w) \<and> commits (trace w1) = commits (trace w) \<and>
      filter_Boolean [vp, ap] = held_paths vp ap \<and>
      distinct (held_paths vp ap) \<and> (truthy_string vp \<or> truthy_string ap) = (held_paths vp ap \<noteq> [])"
proof -
  obtain r1 wa where d: "downloadToTemp e url w = (r1, wa)"
    by (cases "downloadToTemp e url w")
  have fa: "rows wa = rows w" "unlinked (trace wa) = unlinked (trace w)"
    "db_calls (trace wa) = db_calls (trace w)" "commits (trace wa) = commits (trace w)"
    using downloadToTemp_frame [of e url w] d by simp_all
  show ?thesis
  proof (cases r1)
    case (Inl err)
    with assms d fa show ?thesis
      by (auto simp add: transcribeVideo_try_def held_paths_def truthy_string_def)
  next
    case (Inr videoPath)
    note r1 = Inr
    have vp_eq: "videoPath = video_temp_path (os_tmpdir e) (Date_now_at e (clock_reads w))"
      using downloadToTemp_path d Inr by simp
    obtain r2 wb where x: "extractAndCompressAudio e videoPath wa = (r2, wb)"
      by (cases "extractAndCompressAudio e videoPath wa")
    have fb: "rows wb = rows w" "unlinked (trace wb) = unlinked (trace w)"
      "db_calls (trace wb) = db_calls (trace w)" "commits (trace wb) = commits (trace w)"
      using extractAndCompressAudio_frame [of e videoPath wa] x fa by simp_all
    show ?thesis
    proof (cases r2)
      case (Inl err)
      with assms d x fb r1 vp_eq temp_paths_nonempty(1) show ?thesis
        by (auto simp add: transcribeVideo_try_def held_paths_def truthy_string_def)
    next
      case (Inr audioPath)
      have ap_eq: "audioPath = audio_temp_path (os_tmpdir e) (Date_now_at e (clock_reads wa))"
        using extractAndCompressAudio_path x Inr by simp
      obtain r3 wc where t: "transcribeAudio e audioPath wb = (r3, wc)"
        by (cases "transcribeAudio e audioPath wb")
      have fc: "rows wc = rows w" "unlinked (trace wc) = unlinked (trace w)"
        "db_calls (trace wc) = db_calls (trace w)" "commits (trace wc) = commits (trace w)"
        using transcribeAudio_frame [of e audioPath wb] t fb by simp_all
      from assms d x t fc r1 Inr vp_eq ap_eq temp_paths_nonempty temp_paths_differ
      show ?thesis
        by (auto simp add: transcribeVideo_try_def held_paths_def truthy_string_def)
    qed
  qed
qed

lemma transcribeVideo_run:
  assumes t: "transcribeVideo_try e url w = (outcome, vp, ap, w1)"
  shows "fst (transcribeVideo e url w) = outcome \<and>
     unlinked (trace (snd (transcribeVideo e url w))) = unlinked (trace w) @ held_paths vp ap \<and>
     distinct (held_paths vp ap) \<and>
     rows (snd (transcribeVideo e url w)) = rows w \<and>
     db_calls (trace (snd (transcribeVideo e url w))) = db_calls (trace w) \<and>
     commits (trace (snd (transcribeVideo e url w))) = commits (trace w)"
proof -
  note f = transcribeVideo_try_facts [OF t]
  let ?c = "cleanupTempFiles e (held_paths vp ap) w1"
  have c: "fst ?c = Inr ()" "unlinked (trace (snd ?c)) = unlinked (trace w1) @ held_paths vp ap"
    "rows (snd ?c) = rows w1" "db_calls (trace (snd ?c)) = db_calls (trace w1)"
    "commits (trace (snd ?c)) = commits (trace w1)"
    using cleanupTempFiles_frame [of e "held_paths vp ap" w1] by simp_all
  show ?thesis
  proof (cases "held_paths vp ap = []")
    case True
    with t f show ?thesis by (simp add: transcribeVideo_def transcribeVideo_finally_def)
  next
    case False
    with t f c show ?thesis
      by (cases ?c) (simp add: transcribeVideo_def transcribeVideo_finally_def)
  qed
qed

lemma transcribeVideo_frame:
  "rows (snd (transcribeVideo e url w)) = rows w \<and>
   db_calls (trace (snd (transcribeVideo e url w))) = db_calls (trace w) \<and>
   commits (trace (snd (transcribeVideo e url w))) = commits (trace w)"
proof -
  obtain outcome vp ap w1 where t: "transcribeVideo_try e url w = (outcome, vp, ap, w1)"
    by (cases "transcribeVideo_try e url w")
  from transcribeVideo_run [OF t] show ?thesis by simp
qed

subsection \<open>The pipeline reads the files and the clock only\<close>

lemma downloadToTemp_local:
  assumes "files w = files w'" "clock_reads w = clock_reads w'"
  shows "fst (downloadToTemp e url w) = fst (downloadToTemp e url w') \<and>
     files (snd (downloadToTemp e url w)) = files (snd (downloadToTemp e url w')) \<and>
     clock_reads (snd (downloadToTemp e url w)) = clock_reads (snd (downloadToTemp e url w'))"
  using assms
  by (simp add: downloadToTemp_def Date_now_def fs_writeFile_def log_event_def Let_def
      split: sum.splits option.splits prod.splits)

lemma extractAndCompressAudio_local:
  assumes "files w = files w'" "clock_reads w = clock_reads w'"
  shows "fst (extractAndCompressAudio e p w) = fst (extractAndCompressAudio e p w') \<and>
     files (snd (extractAndCompressAudio e p w)) = files (snd (extractAndCompressAudio e p w')) \<and>
     clock_reads (snd (extractAndCompressAudio e p w)) =
       clock_reads (snd (extractAndCompressAudio e p w'))"
  using assms
  by (simp add: extractAndCompressAudio_def Date_now_def execAsync_def log_event_def Let_def
      split: sum.splits option.splits prod.splits)

lemma transcribeAudio_local:
  assumes "files w = files w'" "clock_reads w = clock_reads w'"
  shows "fst (transcribeAudio e p w) = fst (transcribeAudio e p w')"
  using assms
  by (simp add: transcribeAudio_def transcribeAudio_try_def fs_readFile_def log_event_def Let_def
      split: sum.splits option.splits prod.splits)

lemma transcribeVideo_try_local:
  assumes "files w = files w'" "clock_reads w = clock_reads w'"
  shows "fst (transcribeVideo_try e url w) = fst (transcribeVideo_try e url w')"
proof -
  obtain r1 wa where d: "downloadToTemp e url w = (r1, wa)"
    by (cases "downloadToTemp e url w")
  obtain r1' wa' where d': "downloadToTemp e url w' = (r1', wa')"
    by (cases "downloadToTemp e url w'")
  have a: "r1' = r1" "files wa = files wa'" "clock_reads wa = clock_reads wa'"
    using downloadToTemp_local [OF assms, of e url] d d' by simp_all
  show ?thesis
  proof (cases r1)
    case (Inl err)
    with d d' a show ?thesis by (simp add: transcribeVideo_try_def)
  next
    case (Inr videoPath)
    note r1 = Inr
    obtain r2 wb where x: "extractAndCompressAudio e videoPath wa = (r2, wb)"
      by (cases "extractAndCompressAudio e videoPath wa")
    obtain r2' wb' where x': "extractAndCompressAudio e videoPath wa' = (r2', wb')"
      by (cases "extractAndCompressAudio e videoPath wa'")
    have b: "r2' = r2" "files wb = files wb'" "clock_reads wb = clock_reads wb'"
      using extractAndCompressAudio_local [OF a(2,3), of e videoPath] x x' by simp_all
    show ?thesis
    proof (cases r2)
      case (Inl err)
      with d d' a x x' b r1 show ?thesis by (simp add: transcribeVideo_try_def)
    next
      case (Inr audioPath)
      have "fst (transcribeAudio e audioPath wb) = fst (transcribeAudio e audioPath wb')"
        using transcribeAudio_local [OF b(2,3)] .
      with d d' a x x' b r1 Inr show ?thesis
        by (auto simp add: transcribeVideo_try_def split: prod.splits)
    qed
  qed
qed

lemma transcribeVideo_local:
  assumes "files w = files w'" "clock_reads w = clock_reads w'"
  shows "fst (transcribeVideo e url w) = fst (transcribeVideo e url w')"
proof -
  obtain o1 vp ap w1 where t: "transcribeVideo_try e url w = (o1, vp, ap, w1)"
    by (cases "transcribeVideo_try e url w")
  obtain o2 vp' ap' w2 where t': "transcribeVideo_try e url w' = (o2, vp', ap', w2)"
    by (cases "transcribeVideo_try e url w'")
  from transcribeVideo_try_local [OF assms, of e url] t t' have "o1 = o2" by simp
  with transcribeVideo_run [OF t] transcribeVideo_run [OF t'] show ?thesis by simp
qed


subsection \<open>What the handler writes\<close>

lemma transcribeVideo_frameD:
  "transcribeVideo e url w = (r, w1) \<Longrightarrow>
   rows w1 = rows w \<and> db_calls (trace w1) = db_calls (trace w) \<and>
   commits (trace w1) = commits (trace w)"
  using transcribeVideo_frame [of e url w] by simp

lemma POST_try_status:
  "POST_try e rq w = (Inr response, w1) \<Longrightarrow> status response \<in> {200, 400, 404, 500}"
  by (auto simp add: POST_try_def POST_inner_try_def POST_inner_catch_def NextResponse_json_def
      Let_def split: sum.splits option.splits prod.splits if_splits)

lemma POST_status:
  "\<exists>response. fst (POST e rq w) = Inr response \<and> status response \<in> {200, 400, 404, 500}"
proof (cases "POST_try e rq w")
  case (Pair r w1)
  show ?thesis
  proof (cases r)
    case (Inl err)
    with Pair show ?thesis by (simp add: POST_def NextResponse_json_def)
  next
    case (Inr response)
    with Pair POST_try_status [of e rq w response w1] show ?thesis by (simp add: POST_def)
  qed
qed


lemma prisma_video_update_effect:
  assumes "prisma_video_update e vid d w = (r, w1)"
  shows "(isl r \<and> rows w1 = rows w \<and> commits (trace w1) = commits (trace w)) \<or>
     (\<exists>k v. vid = Some (JStr k) \<and> rows w k = Some v \<and> db_fault e (Update vid d) = None \<and>
        r = Inr (apply_update d v) \<and> rows w1 = (rows w)(k \<mapsto> apply_update d v) \<and>
        commits (trace w1) = commits (trace w) @ [(k, v, apply_update d v)])"
  using assms
  by (auto simp add: prisma_video_update_def log_event_def Let_def
      split: option.splits json.splits)

lemma prisma_video_update_local:
  assumes "prisma_video_update e vid d w = (r, w1)"
  shows "files w1 = files w \<and> clock_reads w1 = clock_reads w"
  using assms
  by (auto simp add: prisma_video_update_def log_event_def Let_def
      split: option.splits json.splits)

lemma prisma_video_findUnique_effect:
  assumes "prisma_video_findUnique e vid w = (r, w1)"
  shows "rows w1 = rows w \<and> commits (trace w1) = commits (trace w) \<and>
     files w1 = files w \<and> clock_reads w1 = clock_reads w \<and>
     (\<forall>found. r = Inr found \<longrightarrow> (\<exists>k. vid = Some (JStr k) \<and> found = rows w k))"
  using assms
  by (auto simp add: prisma_video_findUnique_def log_event_def Let_def
      split: option.splits json.splits)


lemma POST_inner_catch_writes:
  assumes "rows w k = Some vm" and "POST_inner_catch e (Some (JStr k)) err w = (r, w1)"
  shows "(commits (trace w1) = commits (trace w) \<and> rows w1 = rows w) \<or>
     (commits (trace w1) = commits (trace w) @ [(k, vm, failed vm)] \<and>
      rows w1 = (rows w)(k \<mapsto> failed vm))"
proof -
  obtain r0 w0 where u: "prisma_video_update e (Some (JStr k)) data_failed w = (r0, w0)"
    by (cases "prisma_video_update e (Some (JStr k)) data_failed w")
  have same: "commits (trace w1) = commits (trace w0) \<and> rows w1 = rows w0"
    using assms(2) u by (cases r0) (auto simp add: POST_inner_catch_def log_event_def)
  have "apply_update data_failed vm = failed vm"
    by (simp add: apply_update_def data_failed_def failed_def)
  with prisma_video_update_effect [OF u] assms(1) same show ?thesis by auto
qed

lemma POST_inner_try_writes:
  assumes "rows w k = Some vm" and "POST_inner_try e (Some (JStr k)) video w = (r, w1)"
  shows "(isl r \<and> commits (trace w1) = commits (trace w) \<and> rows w1 = rows w) \<or>
     (\<exists>res response. r = Inr response \<and> status response = 200 \<and>
        fst (transcribeVideo e (video_url e video) w) = Inr res \<and>
        commits (trace w1) = commits (trace w) @ [(k, vm, apply_update (data_completed res video) vm)] \<and>
        rows w1 = (rows w)(k \<mapsto> apply_update (data_completed res video) vm))"
proof -
  obtain r0 w0 where t: "transcribeVideo e (video_url e video) w = (r0, w0)"
    by (cases "transcribeVideo e (video_url e video) w")
  note f = transcribeVideo_frameD [OF t]
  show ?thesis
  proof (cases r0)
    case (Inl err)
    with assms(2) t f show ?thesis by (auto simp add: POST_inner_try_def)
  next
    case (Inr res)
    obtain r2 w2 where u: "prisma_video_update e (Some (JStr k)) (data_completed res video) w0 = (r2, w2)"
      by (cases "prisma_video_update e (Some (JStr k)) (data_completed res video) w0")
    have same: "isl r = isl r2 \<and> w1 = w2 \<and>
        (\<not> isl r2 \<longrightarrow> (\<exists>response. r = Inr response \<and> status response = 200))"
      using assms(2) t u Inr
      by (cases r2) (auto simp add: POST_inner_try_def NextResponse_json_def)
    from prisma_video_update_effect [OF u] assms(1) f same t Inr show ?thesis by auto
  qed
qed

lemma marked_apply:
  "apply_update data_processing v = marked v"
  "apply_update data_failed (marked v) = failed v"
  "apply_update (data_completed res v) (marked v) = completed res v"
  "failed (marked v) = failed v"
  by (simp_all add: apply_update_def data_processing_def data_failed_def data_completed_def
      marked_def failed_def completed_def new_duration_def)

lemma POST_try_writes:
  assumes "POST_try e rq w = (r, w1)"
  shows "(commits (trace w1) = commits (trace w) \<and> rows w1 = rows w) \<or>
     (\<exists>k v. rows w k = Some v \<and>
        \<not> (transcriptionStatus v = COMPLETED \<and> truthy_string (transcription v)) \<and>
        ((commits (trace w1) = commits (trace w) @ [(k, v, marked v)] \<and>
          rows w1 = (rows w)(k \<mapsto> marked v)) \<or>
         (commits (trace w1) = commits (trace w) @ [(k, v, marked v), (k, marked v, failed v)] \<and>
          rows w1 = (rows w)(k \<mapsto> failed v)) \<or>
         (\<exists>res response. r = Inr response \<and> status response = 200 \<and>
               fst (transcribeVideo e (video_url e v) w) = Inr res \<and>
               commits (trace w1) =
                 commits (trace w) @ [(k, v, marked v), (k, marked v, completed res v)] \<and>
               rows w1 = (rows w)(k \<mapsto> completed res v))))"
proof (cases "\<exists>parsed vid. rq = Inr parsed \<and> destructure_videoId parsed = Inr vid \<and>
    truthy_json vid \<and> truthy_string (OPENAI_API_KEY e)")
  case False
  with assms have "w1 = w"
    by (auto simp add: POST_try_def split: sum.splits if_splits)
  then show ?thesis by simp
next
  case True
  then obtain parsed vid where rq: "rq = Inr parsed" "destructure_videoId parsed = Inr vid"
    "truthy_json vid" "truthy_string (OPENAI_API_KEY e)" by blast
  obtain rf wf where fu: "prisma_video_findUnique e vid w = (rf, wf)"
    by (cases "prisma_video_findUnique e vid w")
  note ff = prisma_video_findUnique_effect [OF fu]
  show ?thesis
  proof (cases "\<exists>video. rf = Inr (Some video) \<and>
      \<not> (transcriptionStatus video = COMPLETED \<and> truthy_string (transcription video))")
    case False
    with assms rq fu have "w1 = wf"
      by (auto simp add: POST_try_def split: sum.splits option.splits if_splits)
    with ff show ?thesis by simp
  next
    case True
    then obtain video where v: "rf = Inr (Some video)"
      "\<not> (transcriptionStatus video = COMPLETED \<and> truthy_string (transcription video))" by blast
    from ff v obtain k where k: "vid = Some (JStr k)" "rows w k = Some video" by auto
    obtain rp wp where up: "prisma_video_update e vid data_processing wf = (rp, wp)"
      by (cases "prisma_video_update e vid data_processing wf")
    note fp = prisma_video_update_effect [OF up]
    show ?thesis
    proof (cases rp)
      case (Inl err)
      with assms rq fu v up have "w1 = wp"
        by (auto simp add: POST_try_def split: sum.splits option.splits if_splits)
      with fp ff Inl show ?thesis by auto
    next
      case (Inr vv)
      with fp ff k have p: "rows wp = (rows w)(k \<mapsto> marked video)"
        "commits (trace wp) = commits (trace w) @ [(k, video, marked video)]"
        by (auto simp add: marked_apply)
      then have pk: "rows wp k = Some (marked video)" by simp
      have loc: "files wp = files w" "clock_reads wp = clock_reads w"
        using prisma_video_update_local [OF up] ff by simp_all
      note same_outcome = transcribeVideo_local [OF loc, of e "video_url e video"]
      obtain ri wi where it: "POST_inner_try e (Some (JStr k)) video wp = (ri, wi)"
        by (cases "POST_inner_try e (Some (JStr k)) video wp")
      note fi = POST_inner_try_writes [OF pk it]
      show ?thesis
      proof (cases ri)
        case (Inr response)
        with assms rq fu v up \<open>rp = Inr vv\<close> it k have "w1 = wi" "r = ri"
          by (auto simp add: POST_try_def split: sum.splits option.splits if_splits)
        with fi Inr p k v same_outcome show ?thesis
          by (auto simp add: marked_apply)
      next
        case (Inl err)
        with fi have i: "commits (trace wi) = commits (trace wp)" "rows wi = rows wp" by auto
        with pk have ik: "rows wi k = Some (marked video)" by simp
        from assms rq fu v up \<open>rp = Inr vv\<close> it k Inl
        have c: "POST_inner_catch e (Some (JStr k)) err wi = (r, w1)"
          by (auto simp add: POST_try_def split: sum.splits option.splits if_splits)
        from POST_inner_catch_writes [OF ik c] i p k v show ?thesis
          by (auto simp add: marked_apply)
      qed
    qed
  qed
qed


lemma POST_writes:
  assumes "POST e rq w = (r, w1)"
  shows "(writes_since w w1 = [] \<and> rows w1 = rows w) \<or>
     (\<exists>k v. rows w k = Some v \<and>
        \<not> (transcriptionStatus v = COMPLETED \<and> truthy_string (transcription v)) \<and>
        ((writes_since w w1 = [(k, v, marked v)] \<and> rows w1 = (rows w)(k \<mapsto> marked v)) \<or>
         (writes_since w w1 = [(k, v, marked v), (k, marked v, failed v)] \<and>
          rows w1 = (rows w)(k \<mapsto> failed v)) \<or>
         (\<exists>res response. r = Inr response \<and> status response = 200 \<and>
               fst (transcribeVideo e (video_url e v) w) = Inr res \<and>
               writes_since w w1 = [(k, v, marked v), (k, marked v, completed res v)] \<and>
               rows w1 = (rows w)(k \<mapsto> completed res v))))"
proof -
  obtain r0 w0 where t: "POST_try e rq w = (r0, w0)"
    by (cases "POST_try e rq w")
  have same: "commits (trace w1) = commits (trace w0)" "rows w1 = rows w0"
    "\<And>response. r0 = Inr response \<Longrightarrow> r = Inr response"
    using assms t by (cases r0; auto simp add: POST_def log_event_def)+
  from POST_try_writes [OF t] show ?thesis
  proof (elim disjE exE conjE)
    assume "commits (trace w0) = commits (trace w)" "rows w0 = rows w"
    with same show ?thesis by (simp add: writes_since_def)
  next
    fix k v
    assume "rows w k = Some v"
      "\<not> (transcriptionStatus v = COMPLETED \<and> truthy_string (transcription v))"
      "commits (trace w0) = commits (trace w) @ [(k, v, marked v)]"
      "rows w0 = (rows w)(k \<mapsto> marked v)"
    with same have "rows w k = Some v \<and>
        \<not> (transcriptionStatus v = COMPLETED \<and> truthy_string (transcription v)) \<and>
        writes_since w w1 = [(k, v, marked v)] \<and> rows w1 = (rows w)(k \<mapsto> marked v)"
      by (simp add: writes_since_def)
    then show ?thesis by blast
  next
    fix k v
    assume "rows w k = Some v"
      "\<not> (transcriptionStatus v = COMPLETED \<and> truthy_string (transcription v))"
      "commits (trace w0) = commits (trace w) @ [(k, v, marked v), (k, marked v, failed v)]"
      "rows w0 = (rows w)(k \<mapsto> failed v)"
    with same have "rows w k = Some v \<and>
        \<not> (transcriptionStatus v = COMPLETED \<and> truthy_string (transcription v)) \<and>
        writes_since w w1 = [(k, v, marked v), (k, marked v, failed v)] \<and>
        rows w1 = (rows w)(k \<mapsto> failed v)"
      by (simp add: writes_since_def)
    then show ?thesis by blast
  next
    fix k v res response
    assume "rows w k = Some v"
      "\<not> (transcriptionStatus v = COMPLETED \<and> truthy_string (transcription v))"
      "r0 = Inr response" "status response = 200"
      "fst (transcribeVideo e (video_url e v) w) = Inr res"
      "commits (trace w0) = commits (trace w) @ [(k, v, marked v), (k, marked v, completed res v)]"
      "rows w0 = (rows w)(k \<mapsto> completed res v)"
    with same have "rows w k = Some v \<and>
        \<not> (transcriptionStatus v = COMPLETED \<and> truthy_string (transcription v)) \<and>
        r = Inr response \<and> status response = 200 \<and>
        fst (transcribeVideo e (video_url e v) w) = Inr res \<and>
        writes_since w w1 = [(k, v, marked v), (k, marked v, completed res v)] \<and>
        rows w1 = (rows w)(k \<mapsto> completed res v)"
      by (simp add: writes_since_def)
    then show ?thesis by blast
  qed
qed

subsection \<open>The handler up to the pipeline\<close>

lemma POST_try_reaches_pipeline:
  assumes "destructure_videoId parsed = Inr (Some (JStr k))" and "k \<noteq> []"
    and "truthy_string (OPENAI_API_KEY e)"
    and "db_fault e (FindUnique (Some (JStr k))) = None"
    and "rows w k = Some video"
    and "\<not> (transcriptionStatus video = COMPLETED \<and> truthy_string (transcription video))"
    and "db_fault e (Update (Some (JStr k)) data_processing) = None"
  shows "POST_try e (Inr parsed) w =
     (case POST_inner_try e (Some (JStr k)) video (after_marking k video w) of
        (Inr response, w3) \<Rightarrow> (Inr response, w3)
      | (Inl error, w3) \<Rightarrow> POST_inner_catch e (Some (JStr k)) error w3)"
proof -
  have find: "prisma_video_findUnique e (Some (JStr k)) w =
      (Inr (Some video), log_event (Db (FindUnique (Some (JStr k)))) w)"
    using assms by (simp add: prisma_video_findUnique_def log_event_def)
  have mark: "prisma_video_update e (Some (JStr k)) data_processing
        (log_event (Db (FindUnique (Some (JStr k)))) w) =
      (Inr (marked video), after_marking k video w)"
    using assms
    by (simp add: prisma_video_update_def log_event_def after_marking_def marked_apply Let_def)
  show ?thesis
    using assms find mark by (auto simp add: POST_try_def)
qed

lemma after_marking_fields:
  "files (after_marking k video w) = files w"
  "clock_reads (after_marking k video w) = clock_reads w"
  "rows (after_marking k video w) = (rows w)(k \<mapsto> marked video)"
  "commits (trace (after_marking k video w)) = commits (trace w) @ [(k, video, marked video)]"
  by (simp_all add: after_marking_def)

lemma POST_failure_run:
  assumes "destructure_videoId parsed = Inr (Some (JStr k))" and "k \<noteq> []"
    and "truthy_string (OPENAI_API_KEY e)"
    and "db_fault e (FindUnique (Some (JStr k))) = None"
    and "rows w k = Some video"
    and "\<not> (transcriptionStatus video = COMPLETED \<and> truthy_string (transcription video))"
    and "db_fault e (Update (Some (JStr k)) data_processing) = None"
    and "fst (transcribeVideo e (video_url e video) w) = Inl err"
    and "db_fault e (Update (Some (JStr k)) data_failed) = None"
  shows "fst (POST e (Inr parsed) w) =
       Inr (NextResponse_json (error_body (error_message err)) 500) \<and>
     rows (snd (POST e (Inr parsed) w)) = (rows w)(k \<mapsto> failed video) \<and>
     writes_since w (snd (POST e (Inr parsed) w)) =
       [(k, video, marked video), (k, marked video, failed video)]"
proof -
  let ?m = "after_marking k video w"
  obtain r0 w0 where t: "transcribeVideo e (video_url e video) ?m = (r0, w0)"
    by (cases "transcribeVideo e (video_url e video) ?m")
  have "fst (transcribeVideo e (video_url e video) ?m) = fst (transcribeVideo e (video_url e video) w)"
    by (rule transcribeVideo_local) (simp_all add: after_marking_fields)
  with t assms(8) have r0: "r0 = Inl err" by simp
  from transcribeVideo_frameD [OF t] have f: "rows w0 = (rows w)(k \<mapsto> marked video)"
    "commits (trace w0) = commits (trace w) @ [(k, video, marked video)]"
    by (simp_all add: after_marking_fields)
  have inner: "POST_inner_try e (Some (JStr k)) video ?m = (Inl err, w0)"
    using t r0 by (simp add: POST_inner_try_def)
  have catch: "POST_inner_catch e (Some (JStr k)) err w0 =
      (Inr (NextResponse_json (error_body (error_message err)) 500),
       log_event (ConsoleError ''Transcription error:'')
         ((log_event (DbCommit k (marked video) (failed video))
            (log_event (Db (Update (Some (JStr k)) data_failed)) w0))
          \<lparr>rows := (rows w0)(k \<mapsto> failed video)\<rparr>))"
    using assms(9) f
    by (simp add: POST_inner_catch_def prisma_video_update_def log_event_def marked_apply Let_def)
  have "POST_try e (Inr parsed) w = POST_inner_catch e (Some (JStr k)) err w0"
    using POST_try_reaches_pipeline [OF assms(1-7)] inner by simp
  with catch f show ?thesis
    by (simp add: POST_def log_event_def writes_since_def)
qed

lemma POST_failure_run_rejected:
  assumes "destructure_videoId parsed = Inr (Some (JStr k))" and "k \<noteq> []"
    and "truthy_string (OPENAI_API_KEY e)"
    and "db_fault e (FindUnique (Some (JStr k))) = None"
    and "rows w k = Some video"
    and "\<not> (transcriptionStatus video = COMPLETED \<and> truthy_string (transcription video))"
    and "db_fault e (Update (Some (JStr k)) data_processing) = None"
    and "fst (transcribeVideo e (video_url e video) w) = Inl err"
    and "db_fault e (Update (Some (JStr k)) data_failed) = Some err2"
  shows "fst (POST e (Inr parsed) w) =
       Inr (NextResponse_json (error_body ''Internal server error'') 500) \<and>
     rows (snd (POST e (Inr parsed) w)) = (rows w)(k \<mapsto> marked video) \<and>
     writes_since w (snd (POST e (Inr parsed) w)) = [(k, video, marked video)]"
proof -
  let ?m = "after_marking k video w"
  obtain r0 w0 where t: "transcribeVideo e (video_url e video) ?m = (r0, w0)"
    by (cases "transcribeVideo e (video_url e video) ?m")
  have "fst (transcribeVideo e (video_url e video) ?m) = fst (transcribeVideo e (video_url e video) w)"
    by (rule transcribeVideo_local) (simp_all add: after_marking_fields)
  with t assms(8) have r0: "r0 = Inl err" by simp
  from transcribeVideo_frameD [OF t] have f: "rows w0 = (rows w)(k \<mapsto> marked video)"
    "commits (trace w0) = commits (trace w) @ [(k, video, marked video)]"
    by (simp_all add: after_marking_fields)
  have inner: "POST_inner_try e (Some (JStr k)) video ?m = (Inl err, w0)"
    using t r0 by (simp add: POST_inner_try_def)
  have catch: "POST_inner_catch e (Some (JStr k)) err w0 =
      (Inl err2, log_event (Db (Update (Some (JStr k)) data_failed)) w0)"
    using assms(9)
    by (simp add: POST_inner_catch_def prisma_video_update_def log_event_def Let_def)
  have "POST_try e (Inr parsed) w = POST_inner_catch e (Some (JStr k)) err w0"
    using POST_try_reaches_pipeline [OF assms(1-7)] inner by simp
  with catch f show ?thesis
    by (simp add: POST_def log_event_def writes_since_def)
qed

lemma POST_success_run:
  assumes "destructure_videoId parsed = Inr (Some (JStr k))" and "k \<noteq> []"
    and "truthy_string (OPENAI_API_KEY e)"
    and "db_fault e (FindUnique (Some (JStr k))) = None"
    and "rows w k = Some video"
    and "\<not> (transcriptionStatus video = COMPLETED \<and> truthy_string (transcription video))"
    and "db_fault e (Update (Some (JStr k)) data_processing) = None"
    and "fst (transcribeVideo e (video_url e video) w) = Inr result"
    and "db_fault e (Update (Some (JStr k)) (data_completed result video)) = None"
  shows "fst (POST e (Inr parsed) w) =
       Inr (NextResponse_json
             (JObj [(''success'', JBool True),
                    (''transcription'', JStr (result_text result)),
                    (''status'', JStr ''COMPLETED''),
                    (''duration'', json_of_number (new_duration result video))]) 200) \<and>
     rows (snd (POST e (Inr parsed) w)) = (rows w)(k \<mapsto> completed result video) \<and>
     writes_since w (snd (POST e (Inr parsed) w)) =
       [(k, video, marked video), (k, marked video, completed result video)]"
proof -
  let ?m = "after_marking k video w"
  obtain r0 w0 where t: "transcribeVideo e (video_url e video) ?m = (r0, w0)"
    by (cases "transcribeVideo e (video_url e video) ?m")
  have "fst (transcribeVideo e (video_url e video) ?m) = fst (transcribeVideo e (video_url e video) w)"
    by (rule transcribeVideo_local) (simp_all add: after_marking_fields)
  with t assms(8) have r0: "r0 = Inr result" by simp
  from transcribeVideo_frameD [OF t] have f: "rows w0 = (rows w)(k \<mapsto> marked video)"
    "commits (trace w0) = commits (trace w) @ [(k, video, marked video)]"
    by (simp_all add: after_marking_fields)
  have inner: "POST_inner_try e (Some (JStr k)) video ?m =
      (Inr (NextResponse_json
             (JObj [(''success'', JBool True),
                    (''transcription'', JStr (result_text result)),
                    (''status'', JStr ''COMPLETED''),
                    (''duration'', json_of_number (new_duration result video))]) 200),
       (log_event (DbCommit k (marked video) (completed result video))
          (log_event (Db (Update (Some (JStr k)) (data_completed result video))) w0))
        \<lparr>rows := (rows w0)(k \<mapsto> completed result video)\<rparr>)"
    using t r0 assms(9) f
    by (simp add: POST_inner_try_def prisma_video_update_def log_event_def marked_apply Let_def
        json_of_text_def completed_def)
  have "POST_try e (Inr parsed) w = POST_inner_try e (Some (JStr k)) video ?m"
    using POST_try_reaches_pipeline [OF assms(1-7)] inner by simp
  with inner f show ?thesis
    by (simp add: POST_def log_event_def writes_since_def)
qed

lemma pipeline_throw_gives_500:
  assumes "destructure_videoId parsed = Inr (Some (JStr k))" and "k \<noteq> []"
    and "truthy_string (OPENAI_API_KEY e)"
    and "db_fault e (FindUnique (Some (JStr k))) = None"
    and "rows w k = Some video"
    and "\<not> (transcriptionStatus video = COMPLETED \<and> truthy_string (transcription video))"
    and "db_fault e (Update (Some (JStr k)) data_processing) = None"
    and "fst (transcribeVideo e (video_url e video) w) = Inl err"
  shows "\<exists>response. fst (POST e (Inr parsed) w) = Inr response \<and> status response = 500"
proof -
  let ?m = "after_marking k video w"
  obtain r0 w0 where t: "transcribeVideo e (video_url e video) ?m = (r0, w0)"
    by (cases "transcribeVideo e (video_url e video) ?m")
  have "fst (transcribeVideo e (video_url e video) ?m) = fst (transcribeVideo e (video_url e video) w)"
    by (rule transcribeVideo_local) (simp_all add: after_marking_fields)
  with t assms(8) have "POST_inner_try e (Some (JStr k)) video ?m = (Inl err, w0)"
    by (simp add: POST_inner_try_def)
  with POST_try_reaches_pipeline [OF assms(1-7)]
  have "POST_try e (Inr parsed) w = POST_inner_catch e (Some (JStr k)) err w0"
    by simp
  then show ?thesis
    by (simp add: POST_def POST_inner_catch_def NextResponse_json_def
        split: prod.splits sum.splits)
qed

section \<open>The claims\<close>

text \<open>
  C9. When the request carries a truthy \<^verbatim>\<open>videoId\<close> and \<^verbatim>\<open>OPENAI_API_KEY\<close> is unset or
  empty, the handler answers 500 with the message about the key and leaves the world as it
  found it: the record store is neither read nor written, and nothing is logged.
\<close>

theorem missing_credential_no_store_access:
  assumes "destructure_videoId parsed = Inr videoId" and "truthy_json videoId"
    and "\<not> truthy_string (OPENAI_API_KEY e)"
  shows "POST e (Inr parsed) w =
     (Inr (NextResponse_json (error_body ''OpenAI API key not configured'') 500), w)"
  using assms by (simp add: POST_def POST_try_def)

text \<open>
  C10. Whatever the request, the environment and the world, the handler returns a response,
  never an exception, and its status is 200, 400, 404 or 500. When the body parses and its
  \<^verbatim>\<open>videoId\<close> is falsy (missing, null, empty, zero or false), the response is the 400
  one, whatever the credential is, and the world is unchanged.
\<close>

theorem POST_always_responds:
  "(\<exists>response. fst (POST e request_json w) = Inr response \<and>
      status response \<in> {200, 400, 404, 500}) \<and>
   (\<forall>parsed videoId.
      request_json = Inr parsed \<and> destructure_videoId parsed = Inr videoId \<and>
      \<not> truthy_json videoId \<longrightarrow>
      POST e request_json w =
        (Inr (NextResponse_json (error_body ''Video ID is required'') 400), w))"
proof
  show "\<exists>response. fst (POST e request_json w) = Inr response \<and>
      status response \<in> {200, 400, 404, 500}"
    by (rule POST_status)
  show "\<forall>parsed videoId.
      request_json = Inr parsed \<and> destructure_videoId parsed = Inr videoId \<and>
      \<not> truthy_json videoId \<longrightarrow>
      POST e request_json w =
        (Inr (NextResponse_json (error_body ''Video ID is required'') 400), w)"
    by (simp add: POST_def POST_try_def)
qed

text \<open>
  C1, as amended. For a stored row whose status is COMPLETED and whose transcription is a
  non-empty string, a well-formed request for it (with the credential configured and the
  lookup answering) gets the stored text with \<^verbatim>\<open>cached: true\<close>; the only thing that
  happens to the world is the logged lookup: no write, no call of the pipeline.
\<close>

theorem cached_transcription_returned:
  assumes "destructure_videoId parsed = Inr (Some (JStr k))" and "k \<noteq> []"
    and "truthy_string (OPENAI_API_KEY e)"
    and "db_fault e (FindUnique (Some (JStr k))) = None"
    and "rows w k = Some video"
    and "transcriptionStatus video = COMPLETED"
    and "transcription video = Some t" and "t \<noteq> []"
  shows "POST e (Inr parsed) w =
     (Inr (NextResponse_json
            (JObj [(''success'', JBool True), (''transcription'', JStr t),
                   (''status'', JStr ''COMPLETED''), (''cached'', JBool True)]) 200),
      log_event (Db (FindUnique (Some (JStr k)))) w)"
  using assms
  by (simp add: POST_def POST_try_def prisma_video_findUnique_def log_event_def
      truthy_string_def json_of_text_def)


text \<open>
  C2, as amended. The handler has marked the row and the pipeline throws \<open>err\<close>. When the
  record store accepts the write of FAILED, the row ends with status FAILED (its other
  fields as they were), the status went from its old value to PROCESSING and from there to
  FAILED, and the response is 500 with the message of \<open>err\<close> if it is an \<^verbatim>\<open>Error\<close>, else
  with the generic message. When the record store rejects that write, the response is the
  500 of the outer handler with its own message, and the row stays PROCESSING. The
  pipeline reads the files and the clock only, so its outcome is stated on the world in
  which the request arrives.
\<close>

theorem pipeline_failure_marks_failed:
  assumes "destructure_videoId parsed = Inr (Some (JStr k))" and "k \<noteq> []"
    and "truthy_string (OPENAI_API_KEY e)"
    and "db_fault e (FindUnique (Some (JStr k))) = None"
    and "rows w k = Some video"
    and "\<not> (transcriptionStatus video = COMPLETED \<and> truthy_string (transcription video))"
    and "db_fault e (Update (Some (JStr k)) data_processing) = None"
    and "fst (transcribeVideo e (video_url e video) w) = Inl err"
  shows "case db_fault e (Update (Some (JStr k)) data_failed) of
       None \<Rightarrow>
         fst (POST e (Inr parsed) w) =
           Inr (NextResponse_json
                 (error_body (case err of JsError m \<Rightarrow> m | JsOther x \<Rightarrow> ''Transcription failed''))
                 500) \<and>
         rows (snd (POST e (Inr parsed) w)) =
           (rows w)(k \<mapsto> video\<lparr>transcriptionStatus := FAILED\<rparr>) \<and>
         status_transitions (writes_since w (snd (POST e (Inr parsed) w))) =
           [(transcriptionStatus video, PROCESSING), (PROCESSING, FAILED)]
     | Some err2 \<Rightarrow>
         fst (POST e (Inr parsed) w) =
           Inr (NextResponse_json (error_body ''Internal server error'') 500) \<and>
         rows (snd (POST e (Inr parsed) w)) =
           (rows w)(k \<mapsto> video\<lparr>transcriptionStatus := PROCESSING\<rparr>) \<and>
         status_transitions (writes_since w (snd (POST e (Inr parsed) w))) =
           [(transcriptionStatus video, PROCESSING)]"
proof (cases "db_fault e (Update (Some (JStr k)) data_failed)")
  case None
  with POST_failure_run [OF assms None] show ?thesis
    by (simp add: error_message_def failed_def marked_def)
next
  case (Some err2)
  with POST_failure_run_rejected [OF assms Some] show ?thesis
    by (simp add: marked_def)
qed

text \<open>
  C4, as amended. When the handler has marked the row, the pipeline returns \<open>result\<close> and the
  record store accepts the write, the row gets the text, the status COMPLETED, and as
  duration: the old value when the service gave no duration or gave zero; otherwise the
  duration rounded to the nearest integer (a tie upwards).
\<close>

theorem duration_policy:
  assumes "destructure_videoId parsed = Inr (Some (JStr k))" and "k \<noteq> []"
    and "truthy_string (OPENAI_API_KEY e)"
    and "db_fault e (FindUnique (Some (JStr k))) = None"
    and "rows w k = Some video"
    and "\<not> (transcriptionStatus video = COMPLETED \<and> truthy_string (transcription video))"
    and "db_fault e (Update (Some (JStr k)) data_processing) = None"
    and "fst (transcribeVideo e (video_url e video) w) = Inr result"
    and "db_fault e (Update (Some (JStr k)) (data_completed result video)) = None"
  shows "rows (snd (POST e (Inr parsed) w)) k =
     Some (video\<lparr>transcription := Some (result_text result),
                 transcriptionStatus := COMPLETED,
                 duration :=
                   (case result_duration result of
                      None \<Rightarrow> duration video
                    | Some d \<Rightarrow> if d = 0 then duration video else Some (of_int \<lfloor>d + 1 / 2\<rfloor>))\<rparr>)"
  using POST_success_run [OF assms]
  by (simp add: completed_def new_duration_def Math_round_def split: option.splits)

text \<open>
  C3, as amended, by failure point. If \<^verbatim>\<open>downloadToTemp\<close> throws, \<^verbatim>\<open>transcribeVideo\<close> throws
  the same error and nothing is unlinked. If \<^verbatim>\<open>downloadToTemp\<close> returns a path and
  \<^verbatim>\<open>extractAndCompressAudio\<close> throws, \<^verbatim>\<open>transcribeVideo\<close> throws that error and exactly the
  returned video path is unlinked, once. If both return a path, the outcome of
  \<^verbatim>\<open>transcribeAudio\<close>, its error or its result, is the outcome of \<^verbatim>\<open>transcribeVideo\<close>, and
  exactly the two returned paths, which differ, are unlinked, once each. This holds
  whatever \<^verbatim>\<open>unlink\<close> does: a failing deletion neither stops the cleanup nor replaces the
  outcome.
\<close>

theorem transcribeVideo_cleanup:
  "(\<forall>err w1.
      downloadToTemp e videoUrl w = (Inl err, w1) \<longrightarrow>
      fst (transcribeVideo e videoUrl w) = Inl err \<and>
      unlinked (trace (snd (transcribeVideo e videoUrl w))) = unlinked (trace w)) \<and>
   (\<forall>videoPath w1 err w2.
      downloadToTemp e videoUrl w = (Inr videoPath, w1) \<longrightarrow>
      extractAndCompressAudio e videoPath w1 = (Inl err, w2) \<longrightarrow>
      fst (transcribeVideo e videoUrl w) = Inl err \<and>
      unlinked (trace (snd (transcribeVideo e videoUrl w))) = unlinked (trace w) @ [videoPath]) \<and>
   (\<forall>videoPath w1 audioPath w2 outcome w3.
      downloadToTemp e videoUrl w = (Inr videoPath, w1) \<longrightarrow>
      extractAndCompressAudio e videoPath w1 = (Inr audioPath, w2) \<longrightarrow>
      transcribeAudio e audioPath w2 = (outcome, w3) \<longrightarrow>
      fst (transcribeVideo e videoUrl w) = outcome \<and>
      unlinked (trace (snd (transcribeVideo e videoUrl w))) =
        unlinked (trace w) @ [videoPath, audioPath] \<and>
      videoPath \<noteq> audioPath)"
proof (intro conjI allI impI)
  fix err w1
  assume "downloadToTemp e videoUrl w = (Inl err, w1)"
  then have "transcribeVideo_try e videoUrl w = (Inl err, None, None, w1)"
    by (simp add: transcribeVideo_try_def)
  from transcribeVideo_run [OF this]
  show "fst (transcribeVideo e videoUrl w) = Inl err"
    and "unlinked (trace (snd (transcribeVideo e videoUrl w))) = unlinked (trace w)"
    by (simp_all add: held_paths_def)
next
  fix videoPath w1 err w2
  assume "downloadToTemp e videoUrl w = (Inr videoPath, w1)"
    and "extractAndCompressAudio e videoPath w1 = (Inl err, w2)"
  then have "transcribeVideo_try e videoUrl w = (Inl err, Some videoPath, None, w2)"
    by (simp add: transcribeVideo_try_def)
  from transcribeVideo_run [OF this]
  show "fst (transcribeVideo e videoUrl w) = Inl err"
    and "unlinked (trace (snd (transcribeVideo e videoUrl w))) = unlinked (trace w) @ [videoPath]"
    by (simp_all add: held_paths_def)
next
  fix videoPath w1 audioPath w2 outcome w3
  assume "downloadToTemp e videoUrl w = (Inr videoPath, w1)"
    and "extractAndCompressAudio e videoPath w1 = (Inr audioPath, w2)"
    and "transcribeAudio e audioPath w2 = (outcome, w3)"
  then have "transcribeVideo_try e videoUrl w = (outcome, Some videoPath, Some audioPath, w3)"
    by (simp add: transcribeVideo_try_def)
  from transcribeVideo_run [OF this]
  show "fst (transcribeVideo e videoUrl w) = outcome"
    and "unlinked (trace (snd (transcribeVideo e videoUrl w))) =
      unlinked (trace w) @ [videoPath, audioPath]"
    and "videoPath \<noteq> audioPath"
    by (simp_all add: held_paths_def)
qed

text \<open>
  C5, as amended. The changes of status that one invocation writes are among
  NONE to PROCESSING, FAILED to PROCESSING, PROCESSING to PROCESSING (a row found in
  PROCESSING is marked again), COMPLETED to PROCESSING, PROCESSING to COMPLETED and
  PROCESSING to FAILED; COMPLETED to PROCESSING is written only for a row whose
  transcription is null or empty. A row that is COMPLETED with a non-empty transcription
  is left as it is by every invocation, and a request for it writes nothing and makes no
  call of the pipeline.
\<close>

theorem handler_status_transitions:
  "set (status_transitions (writes_since w (snd (POST e rq w)))) \<subseteq>
     {(NONE, PROCESSING), (FAILED, PROCESSING), (PROCESSING, PROCESSING),
      (COMPLETED, PROCESSING), (PROCESSING, COMPLETED), (PROCESSING, FAILED)} \<and>
   ((COMPLETED, PROCESSING) \<in> set (status_transitions (writes_since w (snd (POST e rq w)))) \<longrightarrow>
      (\<exists>k v. rows w k = Some v \<and> transcriptionStatus v = COMPLETED \<and>
         \<not> truthy_string (transcription v))) \<and>
   (\<forall>k v. rows w k = Some v \<and> transcriptionStatus v = COMPLETED \<and>
         truthy_string (transcription v) \<longrightarrow>
      rows (snd (POST e rq w)) k = Some v \<and>
      (\<forall>parsed. rq = Inr parsed \<and> destructure_videoId parsed = Inr (Some (JStr k)) \<longrightarrow>
         writes_since w (snd (POST e rq w)) = [] \<and>
         pipeline_calls (trace (snd (POST e rq w))) = pipeline_calls (trace w)))"
proof -
  obtain r w1 where p: "POST e rq w = (r, w1)"
    by (cases "POST e rq w")
  note cases = POST_writes [OF p]
  have st: "(transcriptionStatus v, PROCESSING) \<in>
      {(NONE, PROCESSING), (FAILED, PROCESSING), (PROCESSING, PROCESSING), (COMPLETED, PROCESSING)}"
    for v :: Video
    by (cases "transcriptionStatus v") simp_all
  from cases consider
      (none) "writes_since w w1 = []"
    | (mark) k v where "rows w k = Some v"
        "\<not> (transcriptionStatus v = COMPLETED \<and> truthy_string (transcription v))"
        "writes_since w w1 = [(k, v, marked v)]"
    | (failing) k v where "rows w k = Some v"
        "\<not> (transcriptionStatus v = COMPLETED \<and> truthy_string (transcription v))"
        "writes_since w w1 = [(k, v, marked v), (k, marked v, failed v)]"
    | (compl) k v res where "rows w k = Some v"
        "\<not> (transcriptionStatus v = COMPLETED \<and> truthy_string (transcription v))"
        "writes_since w w1 = [(k, v, marked v), (k, marked v, completed res v)]"
    by blast
  then have ab: "set (status_transitions (writes_since w w1)) \<subseteq>
     {(NONE, PROCESSING), (FAILED, PROCESSING), (PROCESSING, PROCESSING),
      (COMPLETED, PROCESSING), (PROCESSING, COMPLETED), (PROCESSING, FAILED)} \<and>
     ((COMPLETED, PROCESSING) \<in> set (status_transitions (writes_since w w1)) \<longrightarrow>
      (\<exists>k v. rows w k = Some v \<and> transcriptionStatus v = COMPLETED \<and>
         \<not> truthy_string (transcription v)))"
  proof cases
    case none
    then show ?thesis by simp
  next
    case mark
    with st [of v] show ?thesis
      by (auto simp add: marked_def)
  next
    case failing
    with st [of v] show ?thesis
      by (auto simp add: marked_def failed_def)
  next
    case compl
    with st [of v] show ?thesis
      by (auto simp add: marked_def completed_def)
  qed
  have c: "rows w1 k = Some v"
    if "rows w k = Some v \<and> transcriptionStatus v = COMPLETED \<and> truthy_string (transcription v)"
    for k v
    using cases that by auto
  have d: "writes_since w w1 = [] \<and> pipeline_calls (trace w1) = pipeline_calls (trace w)"
    if "rows w k = Some v \<and> transcriptionStatus v = COMPLETED \<and> truthy_string (transcription v)"
      and "rq = Inr parsed \<and> destructure_videoId parsed = Inr (Some (JStr k))"
    for k v parsed
  proof -
    from that have "snd (POST e rq w) = w \<or>
        snd (POST e rq w) = log_event (Db (FindUnique (Some (JStr k)))) w \<or>
        snd (POST e rq w) =
          log_event (ConsoleError ''API error:'') (log_event (Db (FindUnique (Some (JStr k)))) w)"
      by (auto simp add: POST_def POST_try_def prisma_video_findUnique_def Let_def
          log_event_def split: option.splits)
    with p show ?thesis
      by (auto simp add: log_event_def writes_since_def)
  qed
  have w1: "snd (POST e rq w) = w1"
    using p by simp
  show ?thesis
    unfolding w1 using ab c d by blast
qed

text \<open>
  C6. Every row that the handler writes with status COMPLETED carries a transcription:
  the text that the pipeline returned for that video. Hence a run of the handler keeps
  the invariant that a COMPLETED row has a non-null transcription.
\<close>

theorem completed_row_has_transcription:
  "(\<forall>(k, a, b) \<in> set (writes_since w (snd (POST e rq w))).
      transcriptionStatus b = COMPLETED \<longrightarrow>
      (\<exists>res. fst (transcribeVideo e (video_url e a) w) = Inr res \<and>
         transcription b = Some (result_text res))) \<and>
   ((\<forall>k v. rows w k = Some v \<longrightarrow> transcriptionStatus v = COMPLETED \<longrightarrow> transcription v \<noteq> None) \<longrightarrow>
    (\<forall>k v. rows (snd (POST e rq w)) k = Some v \<longrightarrow>
       transcriptionStatus v = COMPLETED \<longrightarrow> transcription v \<noteq> None))"
proof -
  obtain r w1 where p: "POST e rq w = (r, w1)"
    by (cases "POST e rq w")
  have w1: "snd (POST e rq w) = w1"
    using p by simp
  from POST_writes [OF p] consider
      (none) "writes_since w w1 = []" "rows w1 = rows w"
    | (mark) k v where "writes_since w w1 = [(k, v, marked v)]"
        "rows w1 = (rows w)(k \<mapsto> marked v)"
    | (failing) k v where "writes_since w w1 = [(k, v, marked v), (k, marked v, failed v)]"
        "rows w1 = (rows w)(k \<mapsto> failed v)"
    | (compl) k v res where "fst (transcribeVideo e (video_url e v) w) = Inr res"
        "writes_since w w1 = [(k, v, marked v), (k, marked v, completed res v)]"
        "rows w1 = (rows w)(k \<mapsto> completed res v)"
    by blast
  then show ?thesis
  proof cases
    case none
    with w1 show ?thesis by simp
  next
    case mark
    with w1 show ?thesis by (simp add: marked_def)
  next
    case failing
    with w1 show ?thesis by (simp add: marked_def failed_def)
  next
    case compl
    with w1 show ?thesis by (simp add: marked_def completed_def video_url_def)
  qed
qed

text \<open>
  C7. In a run that does not end in a 200 response (a run in which the pipeline throws
  ends in a 500 response) no row changes its transcription or its duration, and each write
  that the record store carries out changes the status of its row and nothing else.
\<close>

theorem failure_keeps_text_and_duration:
  assumes "fst (POST e rq w) = Inr response" and "status response \<noteq> 200"
  shows "(\<forall>k. map_option transcription (rows (snd (POST e rq w)) k) =
             map_option transcription (rows w k) \<and>
           map_option duration (rows (snd (POST e rq w)) k) = map_option duration (rows w k)) \<and>
     (\<forall>(k, a, b) \<in> set (writes_since w (snd (POST e rq w))).
        b = a\<lparr>transcriptionStatus := transcriptionStatus b\<rparr>)"
proof -
  obtain r w1 where p: "POST e rq w = (r, w1)"
    by (cases "POST e rq w")
  have w1: "snd (POST e rq w) = w1" and r: "r = Inr response"
    using p assms(1) by simp_all
  from POST_writes [OF p] r assms(2) consider
      (none) "writes_since w w1 = []" "rows w1 = rows w"
    | (mark) k v where "rows w k = Some v" "writes_since w w1 = [(k, v, marked v)]"
        "rows w1 = (rows w)(k \<mapsto> marked v)"
    | (failing) k v where "rows w k = Some v"
        "writes_since w w1 = [(k, v, marked v), (k, marked v, failed v)]"
        "rows w1 = (rows w)(k \<mapsto> failed v)"
    by auto
  then show ?thesis
  proof cases
    case none
    with w1 show ?thesis by simp
  next
    case mark
    with w1 show ?thesis by (simp add: marked_def)
  next
    case failing
    with w1 show ?thesis by (simp add: marked_def failed_def)
  qed
qed

section \<open>Evaluating the concrete installation\<close>

lemma demo_paths:
  "video_temp_path ''/tmp'' 7 = ''/tmp/video_7.mp4''"
  "audio_temp_path ''/tmp'' 7 = ''/tmp/audio_7.mp3''"
  "path_basename ''/tmp/audio_7.mp3'' = ''audio_7.mp3''"
  by code_simp+

lemma demo_video_url: "video_url demo_env demo_video = demo_url"
  by (simp add: video_url_def demo_env_def demo_video_def demo_url_def or_default_def)

lemmas pipeline_defs =
  transcribeVideo_def transcribeVideo_try_def transcribeVideo_finally_def downloadToTemp_def
  extractAndCompressAudio_def transcribeAudio_def transcribeAudio_try_def execAsync_def
  fs_writeFile_def fs_readFile_def fs_unlink_def Date_now_def log_event_def
  demo_paths ffmpeg_command_def truthy_string_def Let_def

lemma demo_pipeline:
  "fst (transcribeVideo demo_env demo_url demo_world) =
     Inr \<lparr>result_text = ''hello world'', result_duration = Some (62 / 5)\<rparr>"
  by (simp add: pipeline_defs demo_env_def demo_world_def)

lemma no_network_pipeline:
  "fst (transcribeVideo no_network_env demo_url demo_world) = Inl (JsError ''fetch failed'')"
  by (simp add: pipeline_defs no_network_env_def demo_env_def demo_world_def)


lemma silent_pipeline:
  "fst (transcribeVideo silent_env demo_url w) =
     Inr \<lparr>result_text = [], result_duration = Some (62 / 5)\<rparr>"
  by (simp add: pipeline_defs silent_env_def demo_env_def)

lemma zero_duration_pipeline:
  "fst (transcribeVideo zero_duration_env demo_url w) =
     Inr \<lparr>result_text = ''hello world'', result_duration = Some 0\<rparr>"
  by (simp add: pipeline_defs zero_duration_env_def demo_env_def)

lemma variation_entry:
  "truthy_string (OPENAI_API_KEY silent_env)" "db_fault silent_env op = None"
  "video_url silent_env demo_video = demo_url"
  "truthy_string (OPENAI_API_KEY zero_duration_env)" "db_fault zero_duration_env op = None"
  "video_url zero_duration_env demo_video = demo_url"
  "truthy_string (OPENAI_API_KEY no_network_env)" "db_fault no_network_env op = None"
  "video_url no_network_env demo_video = demo_url"
  by (simp_all add: silent_env_def zero_duration_env_def no_network_env_def demo_env_def
      demo_video_def demo_url_def video_url_def or_default_def truthy_string_def)

lemma video_url_fileKey: "fileKey v = fileKey v1 \<Longrightarrow> video_url e v = video_url e v1"
  by (simp add: video_url_def)

section \<open>The claims at concrete inputs\<close>

lemmas handler_defs =
  POST_def POST_try_def POST_inner_try_def POST_inner_catch_def prisma_video_findUnique_def
  prisma_video_update_def apply_update_def data_processing_def data_failed_def
  data_completed_def new_duration_def NextResponse_json_def error_body_def json_of_text_def
  json_of_number_def video_url_def or_default_def error_message_def Math_round_def

lemmas demo_defs =
  demo_env_def demo_world_def demo_video_def demo_body_def demo_url_def no_network_env_def
  broken_ffmpeg_env_def db_down_env_def silent_env_def zero_duration_env_def done_world_def
  done_empty_world_def speech_down_env_def

lemma demo_entry:
  "destructure_videoId demo_body = Inr (Some (JStr ''v1''))"
  "truthy_string (OPENAI_API_KEY demo_env)"
  "db_fault demo_env op = None"
  "rows demo_world ''v1'' = Some demo_video"
  "\<not> (transcriptionStatus demo_video = COMPLETED \<and> truthy_string (transcription demo_video))"
  by (simp_all add: demo_body_def demo_env_def demo_world_def demo_video_def truthy_string_def)

theorem missing_credential_no_store_access_witness:
  "destructure_videoId demo_body = Inr (Some (JStr ''v1'')) \<and>
   truthy_json (Some (JStr ''v1'')) \<and>
   \<not> truthy_string (OPENAI_API_KEY (demo_env\<lparr>OPENAI_API_KEY := Some []\<rparr>)) \<and>
   POST (demo_env\<lparr>OPENAI_API_KEY := Some []\<rparr>) (Inr demo_body) demo_world =
     (Inr \<lparr>status = 500, body = JObj [(''error'', JStr ''OpenAI API key not configured'')]\<rparr>,
      demo_world)"
proof -
  have h1: "destructure_videoId demo_body = Inr (Some (JStr ''v1''))"
    by (rule demo_entry)
  have h2: "truthy_json (Some (JStr ''v1''))"
    by simp
  have h3: "\<not> truthy_string (OPENAI_API_KEY (demo_env\<lparr>OPENAI_API_KEY := Some []\<rparr>))"
    by (simp add: truthy_string_def)
  from missing_credential_no_store_access [OF h1 h2 h3, of demo_world] h1 h2 h3
  show ?thesis by (simp add: NextResponse_json_def error_body_def)
qed

theorem POST_always_responds_witness:
  "destructure_videoId (JObj [(''videoId'', JStr [])]) = Inr (Some (JStr [])) \<and>
   \<not> truthy_json (Some (JStr [])) \<and>
   POST (demo_env\<lparr>OPENAI_API_KEY := None\<rparr>) (Inr (JObj [(''videoId'', JStr [])])) demo_world =
     (Inr \<lparr>status = 400, body = JObj [(''error'', JStr ''Video ID is required'')]\<rparr>, demo_world)"
  using POST_always_responds
    [of "demo_env\<lparr>OPENAI_API_KEY := None\<rparr>" "Inr (JObj [(''videoId'', JStr [])])" demo_world]
  by (simp add: NextResponse_json_def error_body_def)


theorem cached_transcription_returned_witness:
  "rows done_world ''v1'' =
     Some (demo_video\<lparr>transcription := Some ''x'', transcriptionStatus := COMPLETED\<rparr>) \<and>
   POST demo_env (Inr demo_body) done_world =
     (Inr \<lparr>status = 200,
           body = JObj [(''success'', JBool True), (''transcription'', JStr ''x''),
                        (''status'', JStr ''COMPLETED''), (''cached'', JBool True)]\<rparr>,
      done_world\<lparr>trace := [Db (FindUnique (Some (JStr ''v1'')))]\<rparr>)"
proof -
  have row: "rows done_world ''v1'' =
      Some (demo_video\<lparr>transcription := Some ''x'', transcriptionStatus := COMPLETED\<rparr>)"
    by (simp add: done_world_def)
  from cached_transcription_returned
    [OF demo_entry(1) _ demo_entry(2) demo_entry(3) row, of "''x''"] row
  show ?thesis
    by (simp add: NextResponse_json_def log_event_def done_world_def demo_world_def)
qed

theorem pipeline_failure_marks_failed_witness:
  "fst (transcribeVideo no_network_env (video_url no_network_env demo_video) demo_world) =
     Inl (JsError ''fetch failed'') \<and>
   fst (POST no_network_env (Inr demo_body) demo_world) =
     Inr \<lparr>status = 500, body = JObj [(''error'', JStr ''fetch failed'')]\<rparr> \<and>
   rows (snd (POST no_network_env (Inr demo_body) demo_world)) =
     [''v1'' \<mapsto> demo_video\<lparr>transcriptionStatus := FAILED\<rparr>] \<and>
   db_fault db_down_env (Update (Some (JStr ''v1'')) data_failed) =
     Some (JsError ''connection lost'') \<and>
   fst (POST db_down_env (Inr demo_body) demo_world) =
     Inr \<lparr>status = 500, body = JObj [(''error'', JStr ''Internal server error'')]\<rparr> \<and>
   rows (snd (POST db_down_env (Inr demo_body) demo_world)) =
     [''v1'' \<mapsto> demo_video\<lparr>transcriptionStatus := PROCESSING\<rparr>]"
proof -
  have url: "video_url no_network_env demo_video = demo_url"
    "video_url db_down_env demo_video = demo_url"
    using demo_video_url by (simp_all add: no_network_env_def db_down_env_def video_url_def)
  have key: "truthy_string (OPENAI_API_KEY no_network_env)"
    "truthy_string (OPENAI_API_KEY db_down_env)"
    and ok: "\<And>op. db_fault no_network_env op = None"
    using demo_entry(2,3) by (simp_all add: no_network_env_def db_down_env_def)
  have down: "db_fault db_down_env (FindUnique (Some (JStr ''v1''))) = None"
    "db_fault db_down_env (Update (Some (JStr ''v1'')) data_processing) = None"
    "db_fault db_down_env (Update (Some (JStr ''v1'')) data_failed) =
      Some (JsError ''connection lost'')"
    by (simp_all add: db_down_env_def data_processing_def data_failed_def)
  have throws: "fst (transcribeVideo no_network_env (video_url no_network_env demo_video) demo_world) =
      Inl (JsError ''fetch failed'')"
    using no_network_pipeline url by simp
  have throws2: "fst (transcribeVideo db_down_env (video_url db_down_env demo_video) demo_world) =
      Inl (JsError ''fetch failed'')"
    by (simp add: url pipeline_defs demo_defs)
  from pipeline_failure_marks_failed
    [OF demo_entry(1) _ key(1) ok demo_entry(4) demo_entry(5) ok throws]
  have first: "fst (POST no_network_env (Inr demo_body) demo_world) =
      Inr \<lparr>status = 500, body = JObj [(''error'', JStr ''fetch failed'')]\<rparr> \<and>
    rows (snd (POST no_network_env (Inr demo_body) demo_world)) =
      [''v1'' \<mapsto> demo_video\<lparr>transcriptionStatus := FAILED\<rparr>]"
    by (simp add: ok NextResponse_json_def error_body_def demo_world_def)
  from pipeline_failure_marks_failed
    [OF demo_entry(1) _ key(2) down(1) demo_entry(4) demo_entry(5) down(2) throws2]
  have second: "fst (POST db_down_env (Inr demo_body) demo_world) =
      Inr \<lparr>status = 500, body = JObj [(''error'', JStr ''Internal server error'')]\<rparr> \<and>
    rows (snd (POST db_down_env (Inr demo_body) demo_world)) =
      [''v1'' \<mapsto> demo_video\<lparr>transcriptionStatus := PROCESSING\<rparr>]"
    by (simp add: down(3) NextResponse_json_def error_body_def demo_world_def)
  from throws first down(3) second show ?thesis by simp
qed

theorem transcribeVideo_cleanup_witness:
  "fst (transcribeVideo no_network_env demo_url demo_world) = Inl (JsError ''fetch failed'') \<and>
   unlinked (trace (snd (transcribeVideo no_network_env demo_url demo_world))) = [] \<and>
   fst (transcribeVideo broken_ffmpeg_env demo_url demo_world) =
     Inl (JsError ''Failed to extract audio from video'') \<and>
   unlinked (trace (snd (transcribeVideo broken_ffmpeg_env demo_url demo_world))) =
     [''/tmp/video_7.mp4''] \<and>
   fst (transcribeVideo speech_down_env demo_url demo_world) =
     Inl (JsError ''Failed to transcribe audio'') \<and>
   unlinked (trace (snd (transcribeVideo speech_down_env demo_url demo_world))) =
     [''/tmp/video_7.mp4'', ''/tmp/audio_7.mp3''] \<and>
   fst (transcribeVideo demo_env demo_url demo_world) =
     Inr \<lparr>result_text = ''hello world'', result_duration = Some (62 / 5)\<rparr> \<and>
   unlinked (trace (snd (transcribeVideo demo_env demo_url demo_world))) =
     [''/tmp/video_7.mp4'', ''/tmp/audio_7.mp3'']"
proof -
  let ?vp = "''/tmp/video_7.mp4''" and ?ap = "''/tmp/audio_7.mp3''"
  have start: "unlinked (trace demo_world) = []"
    by (simp add: demo_world_def)
  let ?d0 = "downloadToTemp no_network_env demo_url demo_world"
  have "?d0 = (Inl (JsError ''fetch failed''), snd ?d0)"
    by (simp add: prod_eq_iff pipeline_defs demo_defs)
  from transcribeVideo_cleanup [THEN conjunct1, rule_format, OF this] start
  have a: "fst (transcribeVideo no_network_env demo_url demo_world) = Inl (JsError ''fetch failed'') \<and>
      unlinked (trace (snd (transcribeVideo no_network_env demo_url demo_world))) = []"
    by simp
  let ?d1 = "downloadToTemp broken_ffmpeg_env demo_url demo_world"
  let ?x1 = "extractAndCompressAudio broken_ffmpeg_env ?vp (snd ?d1)"
  have d1: "?d1 = (Inr ?vp, snd ?d1)"
    by (simp add: prod_eq_iff pipeline_defs demo_defs)
  have x1: "?x1 = (Inl (JsError ''Failed to extract audio from video''), snd ?x1)"
    by (simp add: prod_eq_iff pipeline_defs demo_defs)
  from transcribeVideo_cleanup [THEN conjunct2, THEN conjunct1, rule_format, OF d1 x1] start
  have b: "fst (transcribeVideo broken_ffmpeg_env demo_url demo_world) =
        Inl (JsError ''Failed to extract audio from video'') \<and>
      unlinked (trace (snd (transcribeVideo broken_ffmpeg_env demo_url demo_world))) = [?vp]"
    by simp
  let ?d2 = "downloadToTemp speech_down_env demo_url demo_world"
  let ?x2 = "extractAndCompressAudio speech_down_env ?vp (snd ?d2)"
  let ?t2 = "transcribeAudio speech_down_env ?ap (snd ?x2)"
  have d2: "?d2 = (Inr ?vp, snd ?d2)"
    by (simp add: prod_eq_iff pipeline_defs demo_defs)
  have x2: "?x2 = (Inr ?ap, snd ?x2)"
    by (simp add: prod_eq_iff pipeline_defs demo_defs)
  have t2: "?t2 = (Inl (JsError ''Failed to transcribe audio''), snd ?t2)"
    by (simp add: prod_eq_iff pipeline_defs demo_defs)
  from transcribeVideo_cleanup
    [THEN conjunct2, THEN conjunct2, rule_format, OF d2 x2 t2] start
  have c: "fst (transcribeVideo speech_down_env demo_url demo_world) =
        Inl (JsError ''Failed to transcribe audio'') \<and>
      unlinked (trace (snd (transcribeVideo speech_down_env demo_url demo_world))) = [?vp, ?ap]"
    by simp
  let ?d3 = "downloadToTemp demo_env demo_url demo_world"
  let ?x3 = "extractAndCompressAudio demo_env ?vp (snd ?d3)"
  let ?t3 = "transcribeAudio demo_env ?ap (snd ?x3)"
  have d3: "?d3 = (Inr ?vp, snd ?d3)"
    by (simp add: prod_eq_iff pipeline_defs demo_defs)
  have x3: "?x3 = (Inr ?ap, snd ?x3)"
    by (simp add: prod_eq_iff pipeline_defs demo_defs)
  have t3: "?t3 = (Inr \<lparr>result_text = ''hello world'', result_duration = Some (62 / 5)\<rparr>, snd ?t3)"
    by (simp add: prod_eq_iff pipeline_defs demo_defs)
  from transcribeVideo_cleanup
    [THEN conjunct2, THEN conjunct2, rule_format, OF d3 x3 t3] start
  have d: "fst (transcribeVideo demo_env demo_url demo_world) =
        Inr \<lparr>result_text = ''hello world'', result_duration = Some (62 / 5)\<rparr> \<and>
      unlinked (trace (snd (transcribeVideo demo_env demo_url demo_world))) = [?vp, ?ap]"
    by simp
  from a b c d show ?thesis by simp
qed

theorem duration_policy_witness:
  "fst (transcribeVideo demo_env (video_url demo_env demo_video) demo_world) =
     Inr \<lparr>result_text = ''hello world'', result_duration = Some (62 / 5)\<rparr> \<and>
   rows (snd (POST demo_env (Inr demo_body) demo_world)) ''v1'' =
     Some (demo_video\<lparr>transcription := Some ''hello world'', transcriptionStatus := COMPLETED,
                      duration := Some 12\<rparr>)"
proof -
  have returns: "fst (transcribeVideo demo_env (video_url demo_env demo_video) demo_world) =
      Inr \<lparr>result_text = ''hello world'', result_duration = Some (62 / 5)\<rparr>"
    using demo_pipeline demo_video_url by simp
  from duration_policy
    [OF demo_entry(1) _ demo_entry(2) demo_entry(3) demo_entry(4) demo_entry(5) demo_entry(3)
      returns demo_entry(3)] returns
  show ?thesis by simp
qed


theorem handler_status_transitions_witness:
  "status_transitions
     (writes_since done_empty_world (snd (POST silent_env (Inr demo_body) done_empty_world))) =
     [(COMPLETED, PROCESSING), (PROCESSING, COMPLETED)] \<and>
   transcription (demo_video\<lparr>transcription := Some [], transcriptionStatus := COMPLETED\<rparr>) = Some [] \<and>
   rows (snd (POST demo_env (Inr demo_body) done_world)) ''v1'' =
     Some (demo_video\<lparr>transcription := Some ''x'', transcriptionStatus := COMPLETED\<rparr>) \<and>
   writes_since done_world (snd (POST demo_env (Inr demo_body) done_world)) = [] \<and>
   pipeline_calls (trace (snd (POST demo_env (Inr demo_body) done_world))) = []"
proof -
  let ?stale = "demo_video\<lparr>transcription := Some [], transcriptionStatus := COMPLETED\<rparr>"
  let ?kept = "demo_video\<lparr>transcription := Some ''x'', transcriptionStatus := COMPLETED\<rparr>"
  have stale: "rows done_empty_world ''v1'' = Some ?stale"
    "\<not> (transcriptionStatus ?stale = COMPLETED \<and> truthy_string (transcription ?stale))"
    by (simp_all add: done_empty_world_def truthy_string_def)
  have url: "video_url silent_env ?stale = demo_url"
    using variation_entry(3) video_url_fileKey [of ?stale demo_video silent_env] by simp
  have run: "fst (transcribeVideo silent_env (video_url silent_env ?stale) done_empty_world) =
      Inr \<lparr>result_text = [], result_duration = Some (62 / 5)\<rparr>"
    using silent_pipeline url by simp
  have first: "status_transitions
     (writes_since done_empty_world (snd (POST silent_env (Inr demo_body) done_empty_world))) =
     [(COMPLETED, PROCESSING), (PROCESSING, COMPLETED)]"
    using POST_success_run
      [OF demo_entry(1) _ variation_entry(1) variation_entry(2) stale variation_entry(2) run
        variation_entry(2)]
    by (simp add: marked_def completed_def)
  have kept: "rows done_world ''v1'' = Some ?kept \<and> transcriptionStatus ?kept = COMPLETED \<and>
      truthy_string (transcription ?kept)"
    by (simp add: done_world_def truthy_string_def)
  from handler_status_transitions [of done_empty_world silent_env "Inr demo_body"] first
  have "\<exists>k v. rows done_empty_world k = Some v \<and> transcriptionStatus v = COMPLETED \<and>
      \<not> truthy_string (transcription v)"
    by simp
  moreover from handler_status_transitions [of done_world demo_env "Inr demo_body"] kept demo_entry(1)
  have "rows (snd (POST demo_env (Inr demo_body) done_world)) ''v1'' = Some ?kept \<and>
      writes_since done_world (snd (POST demo_env (Inr demo_body) done_world)) = [] \<and>
      pipeline_calls (trace (snd (POST demo_env (Inr demo_body) done_world))) =
        pipeline_calls (trace done_world)"
    by blast
  ultimately show ?thesis
    using first by (simp add: done_world_def demo_world_def)
qed

theorem completed_row_has_transcription_witness:
  "rows (snd (POST demo_env (Inr demo_body) demo_world)) ''v1'' =
     Some (demo_video\<lparr>transcription := Some ''hello world'', transcriptionStatus := COMPLETED,
                      duration := Some 12\<rparr>) \<and>
   transcription (demo_video\<lparr>transcription := Some ''hello world'',
                             transcriptionStatus := COMPLETED, duration := Some 12\<rparr>) \<noteq> None"
proof -
  let ?final = "demo_video\<lparr>transcription := Some ''hello world'', transcriptionStatus := COMPLETED,
      duration := Some 12\<rparr>"
  have returns: "fst (transcribeVideo demo_env (video_url demo_env demo_video) demo_world) =
      Inr \<lparr>result_text = ''hello world'', result_duration = Some (62 / 5)\<rparr>"
    using demo_pipeline demo_video_url by simp
  have final: "rows (snd (POST demo_env (Inr demo_body) demo_world)) ''v1'' = Some ?final"
    using POST_success_run
      [OF demo_entry(1) _ demo_entry(2) demo_entry(3) demo_entry(4) demo_entry(5) demo_entry(3)
        returns demo_entry(3)]
    by (simp add: completed_def new_duration_def Math_round_def)
  have inv: "\<forall>k v. rows demo_world k = Some v \<longrightarrow> transcriptionStatus v = COMPLETED \<longrightarrow>
      transcription v \<noteq> None"
    by (simp add: demo_world_def demo_video_def)
  note post = completed_row_has_transcription
    [of demo_world demo_env "Inr demo_body", THEN conjunct2, THEN mp, OF inv]
  have "transcription ?final \<noteq> None"
    by (rule post [rule_format, OF final]) simp
  with final show ?thesis by simp
qed

theorem failure_keeps_text_and_duration_witness:
  "fst (POST no_network_env (Inr demo_body) demo_world) =
     Inr \<lparr>status = 500, body = JObj [(''error'', JStr ''fetch failed'')]\<rparr> \<and>
   map_option transcription (rows (snd (POST no_network_env (Inr demo_body) demo_world)) ''v1'') =
     Some None \<and>
   map_option duration (rows (snd (POST no_network_env (Inr demo_body) demo_world)) ''v1'') =
     Some (Some 30)"
proof -
  have throws: "fst (transcribeVideo no_network_env (video_url no_network_env demo_video) demo_world) =
      Inl (JsError ''fetch failed'')"
    using no_network_pipeline variation_entry(9) by simp
  have resp: "fst (POST no_network_env (Inr demo_body) demo_world) =
      Inr \<lparr>status = 500, body = JObj [(''error'', JStr ''fetch failed'')]\<rparr>"
    using POST_failure_run
      [OF demo_entry(1) _ variation_entry(7) variation_entry(8) demo_entry(4) demo_entry(5)
        variation_entry(8) throws variation_entry(8)]
    by (simp add: NextResponse_json_def error_body_def error_message_def)
  have "status \<lparr>status = 500, body = JObj [(''error'', JStr ''fetch failed'')]\<rparr> \<noteq> 200"
    by simp
  from failure_keeps_text_and_duration [OF resp this] resp
  show ?thesis by (simp add: demo_world_def demo_video_def)
qed


text \<open>
  C1 as stated fails. The service reports an empty text; the first request stores it with
  status COMPLETED, so the row is COMPLETED with a non-null transcription. The second
  request is not answered from the row: it runs the pipeline again, writes the row twice
  and answers without \<^verbatim>\<open>cached\<close>.
\<close>

theorem empty_text_not_cached_counterexample:
  "rows after_silent_run ''v1'' =
     Some (demo_video\<lparr>transcription := Some [], transcriptionStatus := COMPLETED,
                      duration := Some 12\<rparr>) \<and>
   fst (POST silent_env (Inr demo_body) after_silent_run) =
     Inr \<lparr>status = 200,
          body = JObj [(''success'', JBool True), (''transcription'', JStr []),
                       (''status'', JStr ''COMPLETED''), (''duration'', JNum 12)]\<rparr> \<and>
   pipeline_calls (trace (snd (POST silent_env (Inr demo_body) after_silent_run))) =
     pipeline_calls (trace after_silent_run) @
     [HttpFetch demo_url, FsWriteFile ''/tmp/video_7.mp4'',
      Exec (ffmpeg_command ''/tmp/video_7.mp4'' ''/tmp/audio_7.mp3''),
      FsReadFile ''/tmp/audio_7.mp3'', TranscriptionsCreate ''audio_7.mp3'',
      FsUnlink ''/tmp/video_7.mp4'', FsUnlink ''/tmp/audio_7.mp3''] \<and>
   length (writes_since after_silent_run (snd (POST silent_env (Inr demo_body) after_silent_run))) = 2"
  by (simp add: after_silent_run_def handler_defs pipeline_defs demo_defs writes_since_def)

text \<open>
  C2 as stated fails. The download is refused, so the pipeline throws; the record store
  rejects the write of FAILED. The response is the generic 500 of the outer handler, not
  the message of the pipeline's error, and the row is left with status PROCESSING.
\<close>

theorem rejected_failed_write_counterexample:
  "fst (transcribeVideo db_down_env (video_url db_down_env demo_video) demo_world) =
     Inl (JsError ''fetch failed'') \<and>
   fst (POST db_down_env (Inr demo_body) demo_world) =
     Inr \<lparr>status = 500, body = JObj [(''error'', JStr ''Internal server error'')]\<rparr> \<and>
   rows (snd (POST db_down_env (Inr demo_body) demo_world)) ''v1'' =
     Some (demo_video\<lparr>transcriptionStatus := PROCESSING\<rparr>)"
  by (simp add: handler_defs pipeline_defs demo_defs)

text \<open>
  C3 as stated fails. The transcoder fails after \<^verbatim>\<open>extractAndCompressAudio\<close> has built the
  audio path and passed it to the transcoder as its output. The path is never handed to
  \<^verbatim>\<open>unlink\<close>, and the partial file written there is still present when
  \<^verbatim>\<open>transcribeVideo\<close> has thrown.
\<close>

theorem failed_extract_keeps_audio_path_counterexample:
  "fst (transcribeVideo broken_ffmpeg_env demo_url demo_world) =
     Inl (JsError ''Failed to extract audio from video'') \<and>
   audio_temp_path ''/tmp'' 7 = ''/tmp/audio_7.mp3'' \<and>
   pipeline_calls (trace (snd (transcribeVideo broken_ffmpeg_env demo_url demo_world))) =
     [HttpFetch demo_url, FsWriteFile ''/tmp/video_7.mp4'',
      Exec (ffmpeg_command ''/tmp/video_7.mp4'' ''/tmp/audio_7.mp3''),
      FsUnlink ''/tmp/video_7.mp4''] \<and>
   unlinked (trace (snd (transcribeVideo broken_ffmpeg_env demo_url demo_world))) =
     [''/tmp/video_7.mp4''] \<and>
   files (snd (transcribeVideo broken_ffmpeg_env demo_url demo_world)) ''/tmp/audio_7.mp3'' =
     Some ''partial''"
  by (simp add: pipeline_defs demo_defs)

text \<open>
  C4 as stated fails. The service returns the duration 0; rounded it is 0, but the row
  keeps its earlier duration of 30.
\<close>

theorem zero_duration_counterexample:
  "fst (transcribeVideo zero_duration_env (video_url zero_duration_env demo_video) demo_world) =
     Inr \<lparr>result_text = ''hello world'', result_duration = Some 0\<rparr> \<and>
   Math_round 0 = 0 \<and>
   duration demo_video = Some 30 \<and>
   map_option duration (rows (snd (POST zero_duration_env (Inr demo_body) demo_world)) ''v1'') =
     Some (Some 30)"
  by (simp add: handler_defs pipeline_defs demo_defs)

text \<open>
  C5 as stated fails. A row that is COMPLETED with the empty text is not absorbing: a
  request for it writes PROCESSING over COMPLETED and runs the pipeline again.
\<close>

theorem completed_to_processing_counterexample:
  "rows done_empty_world ''v1'' =
     Some (demo_video\<lparr>transcription := Some [], transcriptionStatus := COMPLETED\<rparr>) \<and>
   status_transitions
     (writes_since done_empty_world (snd (POST demo_env (Inr demo_body) done_empty_world))) =
     [(COMPLETED, PROCESSING), (PROCESSING, COMPLETED)] \<and>
   rows (snd (POST demo_env (Inr demo_body) done_empty_world)) ''v1'' =
     Some (demo_video\<lparr>transcription := Some ''hello world'', transcriptionStatus := COMPLETED,
                      duration := Some 12\<rparr>)"
  by (simp add: handler_defs pipeline_defs demo_defs writes_since_def)

text \<open>
  C8: the code at two calls that read the same millisecond. Both calls of
  \<^verbatim>\<open>downloadToTemp\<close> return the same path, the second overwriting the file of the first,
  and so do two calls of \<^verbatim>\<open>extractAndCompressAudio\<close>.
\<close>

theorem same_millisecond_same_path:
  "Date_now_at demo_env 0 = Date_now_at demo_env 1 \<and>
   fst (downloadToTemp demo_env demo_url demo_world) = Inr ''/tmp/video_7.mp4'' \<and>
   fst (downloadToTemp demo_env demo_url (snd (downloadToTemp demo_env demo_url demo_world))) =
     Inr ''/tmp/video_7.mp4'' \<and>
   fst (extractAndCompressAudio demo_env ''/tmp/video_7.mp4'' demo_world) =
     Inr ''/tmp/audio_7.mp3'' \<and>
   fst (extractAndCompressAudio demo_env ''/tmp/video_7.mp4''
         (snd (extractAndCompressAudio demo_env ''/tmp/video_7.mp4'' demo_world))) =
     Inr ''/tmp/audio_7.mp3''"
  by (simp add: pipeline_defs demo_defs)


end
